theory Spec2Isabelle
  imports
    Main
    "HOL-Library.Char_ord"
    "HOL-Library.List_Lexorder"
    "HOL-Library.Product_Lexorder"
    "HOL-Library.AList"
begin

section \<open>Python values, strings and dictionaries\<close>

text \<open>
  The storage module keeps every entity as an untyped dictionary decoded from JSON.
  A field value is \<open>None\<close>, a bool, an int, a string or a list of strings (the only
  list the module itself writes, for \<open>tags\<close>). A string is a list of 8-bit characters,
  read as the code points 0 to 255; the character classes below are those of Python's
  \<open>str\<close> methods on these code points.
\<close>

datatype pyval = PNone | PBool bool | PInt int | PStr string | PList "string list"

type_synonym pydict = "(string \<times> pyval) list"

text \<open>Truthiness of a value, as \<open>if v\<close> and \<open>a or b\<close> test it.\<close>

fun truthy :: "pyval \<Rightarrow> bool" where
  "truthy PNone = False"
| "truthy (PBool b) = b"
| "truthy (PInt i) = (i \<noteq> 0)"
| "truthy (PStr s) = (s \<noteq> [])"
| "truthy (PList xs) = (xs \<noteq> [])"

definition py_or :: "pyval \<Rightarrow> pyval \<Rightarrow> pyval" where
  "py_or a b = (if truthy a then a else b)"

text \<open>Python's \<open>==\<close>: a bool is an int (\<open>True == 1\<close>); values of other kinds differ.\<close>

fun py_eq :: "pyval \<Rightarrow> pyval \<Rightarrow> bool" where
  "py_eq PNone PNone = True"
| "py_eq (PBool a) (PBool b) = (a = b)"
| "py_eq (PBool a) (PInt i) = ((if a then 1 else 0) = i)"
| "py_eq (PInt i) (PBool b) = (i = (if b then 1 else 0))"
| "py_eq (PInt i) (PInt j) = (i = j)"
| "py_eq (PStr s) (PStr t) = (s = t)"
| "py_eq (PList xs) (PList ys) = (xs = ys)"
| "py_eq _ _ = False"

subsection \<open>Character classes and string methods\<close>

definition ascii_upper :: string where
  "ascii_upper = ''ABCDEFGHIJKLMNOPQRSTUVWXYZ''"

definition ascii_lower :: string where
  "ascii_lower = ''abcdefghijklmnopqrstuvwxyz''"

definition ascii_digits :: string where
  "ascii_digits = ''0123456789''"

text \<open>
  Above 127: the capital letters 0xC0-0xDE (without the sign 0xD7) and their small letters
  0xE0-0xFE (without 0xF7), which \<open>str.lower\<close> pairs; and the letters and numerics without
  case: the ordinal indicators, superscript digits, micro sign, fractions, sharp s and 0xFF.
\<close>

definition latin1_upper :: string where
  "latin1_upper =
     [CHR 0xC0, CHR 0xC1, CHR 0xC2, CHR 0xC3, CHR 0xC4, CHR 0xC5, CHR 0xC6, CHR 0xC7,
     CHR 0xC8, CHR 0xC9, CHR 0xCA, CHR 0xCB, CHR 0xCC, CHR 0xCD, CHR 0xCE, CHR 0xCF,
     CHR 0xD0, CHR 0xD1, CHR 0xD2, CHR 0xD3, CHR 0xD4, CHR 0xD5, CHR 0xD6, CHR 0xD8,
     CHR 0xD9, CHR 0xDA, CHR 0xDB, CHR 0xDC, CHR 0xDD, CHR 0xDE]"

definition latin1_lower :: string where
  "latin1_lower =
     [CHR 0xE0, CHR 0xE1, CHR 0xE2, CHR 0xE3, CHR 0xE4, CHR 0xE5, CHR 0xE6, CHR 0xE7,
     CHR 0xE8, CHR 0xE9, CHR 0xEA, CHR 0xEB, CHR 0xEC, CHR 0xED, CHR 0xEE, CHR 0xEF,
     CHR 0xF0, CHR 0xF1, CHR 0xF2, CHR 0xF3, CHR 0xF4, CHR 0xF5, CHR 0xF6, CHR 0xF8,
     CHR 0xF9, CHR 0xFA, CHR 0xFB, CHR 0xFC, CHR 0xFD, CHR 0xFE]"

definition latin1_caseless :: string where
  "latin1_caseless =
     [CHR 0xAA, CHR 0xB2, CHR 0xB3, CHR 0xB5, CHR 0xB9, CHR 0xBA, CHR 0xBC, CHR 0xBD,
     CHR 0xBE, CHR 0xDF, CHR 0xFF]"

definition isalnum :: "char \<Rightarrow> bool" where
  "isalnum c = (c \<in> set (ascii_upper @ ascii_lower @ ascii_digits
                          @ latin1_upper @ latin1_lower @ latin1_caseless))"

definition lower_char :: "char \<Rightarrow> char" where
  "lower_char c =
     (case map_of (zip (ascii_upper @ latin1_upper) (ascii_lower @ latin1_lower)) c of
        Some l \<Rightarrow> l | None \<Rightarrow> c)"

definition lower :: "string \<Rightarrow> string" where
  "lower s = map lower_char s"

text \<open>
  \<open>str.isspace\<close>, which \<open>str.strip\<close> uses: tab, LF, VT, FF, CR, the four separators
  0x1C-0x1F, space, next line (0x85) and no-break space (0xA0).
\<close>

definition isspace :: "char \<Rightarrow> bool" where
  "isspace c = (c \<in> set [CHR 0x09, CHR 0x0A, CHR 0x0B, CHR 0x0C, CHR 0x0D,
                          CHR 0x1C, CHR 0x1D, CHR 0x1E, CHR 0x1F, CHR 0x20,
                          CHR 0x85, CHR 0xA0])"

definition strip_with :: "(char \<Rightarrow> bool) \<Rightarrow> string \<Rightarrow> string" where
  "strip_with p s = rev (dropWhile p (rev (dropWhile p s)))"

definition strip :: "string \<Rightarrow> string" where
  "strip s = strip_with isspace s"

text \<open>\<open>sub in s\<close>: \<open>sub\<close> occurs in \<open>s\<close> as a contiguous run.\<close>

fun starts_with :: "string \<Rightarrow> string \<Rightarrow> bool" where
  "starts_with [] s = True"
| "starts_with (p # ps) [] = False"
| "starts_with (p # ps) (c # cs) = (p = c \<and> starts_with ps cs)"

fun py_in :: "string \<Rightarrow> string \<Rightarrow> bool" where
  "py_in sub [] = (sub = [])"
| "py_in sub (c # cs) = (starts_with sub (c # cs) \<or> py_in sub cs)"

text \<open>\<open>s.split(",")\<close>: always at least one piece.\<close>

fun split_comma :: "string \<Rightarrow> string list" where
  "split_comma [] = [[]]"
| "split_comma (c # cs) =
     (if c = CHR '','' then [] # split_comma cs
      else (case split_comma cs of [] \<Rightarrow> [[c]] | p # ps \<Rightarrow> (c # p) # ps))"

text \<open>\<open>",".join(xs)\<close>.\<close>

fun join_comma :: "string list \<Rightarrow> string" where
  "join_comma [] = []"
| "join_comma [x] = x"
| "join_comma (x # y # ys) = x @ CHR '','' # join_comma (y # ys)"

subsection \<open>\<open>str(v)\<close>\<close>

definition digit_char :: "nat \<Rightarrow> char" where
  "digit_char n = ascii_digits ! (n mod 10)"

function dec_nat :: "nat \<Rightarrow> string" where
  "dec_nat n = (if n < 10 then [digit_char n] else dec_nat (n div 10) @ [digit_char n])"
  by pat_completeness auto
termination
  by (relation "measure id") auto

definition str_int :: "int \<Rightarrow> string" where
  "str_int i = (if i < 0 then CHR ''-'' # dec_nat (nat (- i)) else dec_nat (nat i))"

text \<open>
  \<open>repr\<close> of a string, for the elements of a list: single quotes unless the string has a
  single quote and no double quote; backslash, the quote, tab, LF and CR escaped; the other
  characters that are not printable (below 0x20, 0x7F to 0xA0, and 0xAD) as \<open>\xhh\<close>.
\<close>

definition hex_digit :: "nat \<Rightarrow> char" where
  "hex_digit n = ''0123456789abcdef'' ! (n mod 16)"

definition repr_char :: "char \<Rightarrow> char \<Rightarrow> string" where
  "repr_char q c =
     (if c = q \<or> c = CHR 0x5C then [CHR 0x5C, c]
      else if c = CHR 0x09 then [CHR 0x5C, CHR ''t'']
      else if c = CHR 0x0A then [CHR 0x5C, CHR ''n'']
      else if c = CHR 0x0D then [CHR 0x5C, CHR ''r'']
      else if (of_char c :: nat) < 32 \<or> (127 \<le> (of_char c :: nat) \<and> (of_char c :: nat) \<le> 160)
              \<or> c = CHR 0xAD
        then [CHR 0x5C, CHR ''x'', hex_digit (of_char c div 16), hex_digit (of_char c)]
      else [c])"

definition repr_str :: "string \<Rightarrow> string" where
  "repr_str s =
     (let q = (if CHR 0x27 \<in> set s \<and> CHR 0x22 \<notin> set s then CHR 0x22 else CHR 0x27)
      in q # concat (map (repr_char q) s) @ [q])"

fun join_comma_space :: "string list \<Rightarrow> string" where
  "join_comma_space [] = []"
| "join_comma_space [x] = x"
| "join_comma_space (x # y # ys) = x @ CHR '','' # CHR '' '' # join_comma_space (y # ys)"

fun py_str :: "pyval \<Rightarrow> string" where
  "py_str PNone = ''None''"
| "py_str (PBool b) = (if b then ''True'' else ''False'')"
| "py_str (PInt i) = str_int i"
| "py_str (PStr s) = s"
| "py_str (PList xs) = CHR ''['' # join_comma_space (map repr_str xs) @ '']''"

subsection \<open>Dictionaries\<close>

text \<open>\<open>d.get(k)\<close> gives \<open>None\<close> for a missing key; \<open>d.get(k, dflt)\<close> gives \<open>dflt\<close>.\<close>

definition dget :: "pydict \<Rightarrow> string \<Rightarrow> pyval" where
  "dget d k = (case map_of d k of None \<Rightarrow> PNone | Some v \<Rightarrow> v)"

definition dget_or :: "pydict \<Rightarrow> string \<Rightarrow> pyval \<Rightarrow> pyval" where
  "dget_or d k dflt = (case map_of d k of None \<Rightarrow> dflt | Some v \<Rightarrow> v)"

text \<open>\<open>d[k] = v\<close> and \<open>d.update({k: v, ...})\<close>: an existing key keeps its place.\<close>

definition dset :: "string \<Rightarrow> pyval \<Rightarrow> pydict \<Rightarrow> pydict" where
  "dset k v d = AList.update k v d"

definition dupdate :: "pydict \<Rightarrow> pydict \<Rightarrow> pydict" where
  "dupdate d kvs = foldl (\<lambda>acc (k, v). dset k v acc) d kvs"

text \<open>An optional dictionary or string in a condition: \<open>None\<close> and the empty one are false.\<close>

definition dict_truthy :: "pydict option \<Rightarrow> bool" where
  "dict_truthy d = (case d of None \<Rightarrow> False | Some x \<Rightarrow> x \<noteq> [])"

definition str_truthy :: "string option \<Rightarrow> bool" where
  "str_truthy s = (case s of None \<Rightarrow> False | Some x \<Rightarrow> x \<noteq> [])"

definition str_or_empty :: "string option \<Rightarrow> string" where
  "str_or_empty s = (case s of None \<Rightarrow> [] | Some x \<Rightarrow> x)"

section \<open>The record store\<close>

text \<open>
  \<open>read_data\<close> decodes the JSON file into the five collections, each a list of
  dictionaries; a missing file reads as the empty store. \<open>write_data\<close> replaces the
  whole file. The world is the file (as \<open>read_data\<close> decodes it) and the number of
  snapshot writes made so far.
\<close>

record data =
  events :: "pydict list"
  users :: "pydict list"
  attendances :: "pydict list"
  side_events :: "pydict list"
  meeting_requests :: "pydict list"

record world =
  disk :: "data option"
  writes :: nat

datatype error = ValueError string | TypeError string

definition FREE_ATTENDEE_LIMIT :: nat where
  "FREE_ATTENDEE_LIMIT = 25"

definition PRO_ATTENDEE_LIMIT :: nat where
  "PRO_ATTENDEE_LIMIT = 500"

definition default_data :: data where
  "default_data = \<lparr>events = [], users = [], attendances = [], side_events = [],
                    meeting_requests = []\<rparr>"

definition read_data :: "world \<Rightarrow> data" where
  "read_data w = (case disk w of None \<Rightarrow> default_data | Some d \<Rightarrow> d)"

definition write_data :: "data \<Rightarrow> world \<Rightarrow> world" where
  "write_data d w = w\<lparr>disk := Some d, writes := Suc (writes w)\<rparr>"

text \<open>The lookup that resolves the viewer of a request from the session's user id.\<close>

definition get_user_by_id :: "world \<Rightarrow> string \<Rightarrow> pydict option" where
  "get_user_by_id w user_id = find (\<lambda>user. py_str (dget user ''id'') = user_id) (users (read_data w))"

section \<open>Visibility and ranking engine\<close>

definition can_view_verified_only :: "pydict option \<Rightarrow> bool" where
  "can_view_verified_only viewer =
     (if \<not> dict_truthy viewer then False
      else if py_eq (dget (the viewer) ''role'') (PStr ''ADMIN'') then True
      else if truthy (dget (the viewer) ''verified_email_domain'') then True
      else py_eq (dget (the viewer) ''plan'') (PStr ''PRO'')
         \<and> py_eq (dget (the viewer) ''subscription_status'') (PStr ''ACTIVE''))"

definition attendee_limit :: "pydict option \<Rightarrow> nat" where
  "attendee_limit viewer =
     (if dict_truthy viewer
         \<and> (py_eq (dget (the viewer) ''role'') (PStr ''ADMIN'')
            \<or> (py_eq (dget (the viewer) ''plan'') (PStr ''PRO'')
               \<and> py_eq (dget (the viewer) ''subscription_status'') (PStr ''ACTIVE'')))
      then PRO_ATTENDEE_LIMIT else FREE_ATTENDEE_LIMIT)"

text \<open>The dictionary comprehension over the users: a later user with the same key wins.\<close>

definition users_by_id :: "pydict list \<Rightarrow> (string \<rightharpoonup> pydict)" where
  "users_by_id us = foldl (\<lambda>m u. m(py_str (dget u ''id'') \<mapsto> u)) Map.empty us"

text \<open>
  The sort key of a row, and \<open>rows.sort(key=..., reverse=True)\<close>: a stable sort of the
  reversed list, reversed again, so rows with equal keys keep their order.
\<close>

definition row_key :: "pydict \<Rightarrow> string \<times> string" where
  "row_key a = (py_str (dget_or a ''updated_at'' (PStr [])),
               py_str (dget_or a ''user_id'' (PStr [])))"

definition sort_rows :: "pydict list \<Rightarrow> pydict list" where
  "sort_rows rows = rev (sort_key row_key (rev rows))"

text \<open>The disclosure decision of the loop body (the local \<open>can_see\<close>).\<close>

definition can_see :: "pydict option \<Rightarrow> pydict \<Rightarrow> bool" where
  "can_see viewer row =
     (let visibility = dget row ''visibility'' in
      if dict_truthy viewer \<and> py_eq (dget (the viewer) ''role'') (PStr ''ADMIN'') then True
      else if py_eq visibility (PStr ''PUBLIC'') then True
      else if py_eq visibility (PStr ''VERIFIED_ONLY'') then can_view_verified_only viewer
      else if py_eq visibility (PStr ''PRIVATE'')
        then dict_truthy viewer \<and> py_eq (dget (the viewer) ''id'') (dget row ''user_id'')
      else False)"

text \<open>The disclosure record appended for a visible row.\<close>

definition disclose :: "pydict \<Rightarrow> pydict \<Rightarrow> pydict" where
  "disclose user row =
     [(''user_id'', dget user ''id''),
      (''name'', dget user ''name''),
      (''email'', dget user ''email''),
      (''company'', dget_or user ''company'' (PStr [])),
      (''title'', dget_or user ''title'' (PStr [])),
      (''state'', dget row ''state''),
      (''visibility'', dget row ''visibility''),
      (''updated_at'', dget row ''updated_at'')]"

text \<open>The loop over the sorted rows, building \<open>visible\<close>.\<close>

fun visible_loop ::
  "(string \<rightharpoonup> pydict) \<Rightarrow> pydict option \<Rightarrow> string \<Rightarrow> string \<Rightarrow> string option
    \<Rightarrow> pydict list \<Rightarrow> pydict list" where
  "visible_loop usrs viewer c t state [] = []"
| "visible_loop usrs viewer c t state (row # rows) =
     (if str_truthy state \<and> \<not> py_eq (dget row ''state'') (PStr (the state))
        then visible_loop usrs viewer c t state rows
      else let user = usrs (py_str (dget row ''user_id'')) in
      if \<not> dict_truthy user then visible_loop usrs viewer c t state rows
      else if \<not> can_see viewer row then visible_loop usrs viewer c t state rows
      else if c \<noteq> [] \<and> \<not> py_in c (lower (py_str (dget_or (the user) ''company'' (PStr []))))
        then visible_loop usrs viewer c t state rows
      else if t \<noteq> [] \<and> \<not> py_in t (lower (py_str (dget_or (the user) ''title'' (PStr []))))
        then visible_loop usrs viewer c t state rows
      else disclose (the user) row # visible_loop usrs viewer c t state rows)"

text \<open>The list \<open>visible\<close> of \<open>list_visible_attendees\<close>, before the limit.\<close>

definition visible_attendees ::
  "world \<Rightarrow> string \<Rightarrow> pydict option \<Rightarrow> string option \<Rightarrow> string option \<Rightarrow> string option
    \<Rightarrow> pydict list" where
  "visible_attendees w event_slug viewer company title state =
     (let d = read_data w;
          usrs = users_by_id (users d);
          rows = sort_rows (filter (\<lambda>a. py_eq (dget a ''event_slug'') (PStr event_slug))
                                   (attendances d));
          c = lower (strip (str_or_empty company));
          t = lower (strip (str_or_empty title))
      in visible_loop usrs viewer c t state rows)"

record listing =
  items :: "pydict list"
  total_visible :: nat
  limit :: nat

definition list_visible_attendees ::
  "world \<Rightarrow> string \<Rightarrow> pydict option \<Rightarrow> string option \<Rightarrow> string option \<Rightarrow> string option
    \<Rightarrow> listing" where
  "list_visible_attendees w event_slug viewer company title state =
     (let visible = visible_attendees w event_slug viewer company title state;
          lim = attendee_limit viewer
      in \<lparr>items = take lim visible, total_visible = length visible, limit = lim\<rparr>)"

section \<open>Event catalog\<close>

text \<open>\<open>safe.replace("--", "-")\<close>: the occurrences are replaced left to right, without overlap.\<close>

fun replace_dashes :: "string \<Rightarrow> string" where
  "replace_dashes (a # b # cs) =
     (if a = CHR ''-'' \<and> b = CHR ''-'' then CHR ''-'' # replace_dashes cs
      else a # replace_dashes (b # cs))"
| "replace_dashes cs = cs"

lemma length_replace_dashes_le: "length (replace_dashes s) \<le> length s"
  by (induction s rule: replace_dashes.induct) auto

lemma length_replace_dashes_less:
  "py_in ''--'' s \<Longrightarrow> length (replace_dashes s) < length s"
proof (induction s rule: replace_dashes.induct)
  case (1 a b cs)
  then show ?case
    using length_replace_dashes_le [of cs] by (auto split: if_splits)
qed auto

text \<open>The loop \<open>while "--" in safe\<close>.\<close>

function collapse_dashes :: "string \<Rightarrow> string" where
  "collapse_dashes s = (if py_in ''--'' s then collapse_dashes (replace_dashes s) else s)"
  by pat_completeness auto
termination
  by (relation "measure length") (auto simp: length_replace_dashes_less)

definition slugify :: "string \<Rightarrow> string" where
  "slugify v =
     (let safe = map (\<lambda>c. if isalnum c then lower_char c else CHR ''-'') (strip v)
      in strip_with (\<lambda>c. c = CHR ''-'') (collapse_dashes safe))"

text \<open>The tags of a payload: split at commas, each piece stripped, the empty ones dropped.\<close>

definition parse_tags :: "string \<Rightarrow> string list" where
  "parse_tags s = filter (\<lambda>t. t \<noteq> []) (map strip (split_comma s))"

text \<open>
  \<open>",".join(v)\<close> on a stored \<open>tags\<close> value: a list of strings is joined, a string is
  joined character by character, anything else raises \<open>TypeError\<close>.
\<close>

definition join_value :: "pyval \<Rightarrow> error + string" where
  "join_value v =
     (case v of
        PList xs \<Rightarrow> Inr (join_comma xs)
      | PStr s \<Rightarrow> Inr (join_comma (map (\<lambda>c. [c]) s))
      | _ \<Rightarrow> Inl (TypeError ''can only join an iterable''))"

definition slug_is :: "string \<Rightarrow> pydict \<Rightarrow> bool" where
  "slug_is slug event = (py_str (dget event ''slug'') = slug)"

text \<open>The stripped text of a payload field, with the default used when the key is absent.\<close>

definition text_field :: "pydict \<Rightarrow> string \<Rightarrow> pyval \<Rightarrow> pyval" where
  "text_field payload k dflt = PStr (strip (py_str (dget_or payload k dflt)))"

definition create_event :: "pydict \<Rightarrow> world \<Rightarrow> (error + pydict) \<times> world" where
  "create_event payload w =
     (let d = read_data w;
          slug = slugify (py_str (py_or (py_or (dget payload ''slug'') (dget payload ''name''))
                                        (PStr [])))
      in if slug = [] then (Inl (ValueError ''Slug or name is required''), w)
         else if list_ex (slug_is slug) (events d)
           then (Inl (ValueError ''Event slug already exists''), w)
         else
           let event =
                 [(''slug'', PStr slug),
                  (''name'', text_field payload ''name'' (PStr [])),
                  (''description'', text_field payload ''description'' (PStr [])),
                  (''website_url'', text_field payload ''website_url'' (PStr [])),
                  (''start_at'', text_field payload ''start_at'' (PStr [])),
                  (''end_at'', text_field payload ''end_at'' (PStr [])),
                  (''city'', text_field payload ''city'' (PStr [])),
                  (''country'', text_field payload ''country'' (PStr [])),
                  (''tags'', PList (parse_tags (py_str (dget_or payload ''tags'' (PStr [])))))]
           in if \<not> truthy (dget event ''name'')
                then (Inl (ValueError ''Event name is required''), w)
              else (Inr event, write_data (d\<lparr>events := events d @ [event]\<rparr>) w))"

text \<open>In-place change of the first element that satisfies \<open>P\<close>.\<close>

fun update_first :: "('a \<Rightarrow> bool) \<Rightarrow> ('a \<Rightarrow> 'a) \<Rightarrow> 'a list \<Rightarrow> 'a list" where
  "update_first P f [] = []"
| "update_first P f (x # xs) = (if P x then f x # xs else x # update_first P f xs)"

text \<open>The cascade of a rename over the attendance rows.\<close>

definition rename_rows :: "string \<Rightarrow> string \<Rightarrow> pydict list \<Rightarrow> pydict list" where
  "rename_rows slug new_slug rows =
     map (\<lambda>a. if py_eq (dget a ''event_slug'') (PStr slug)
               then dset ''event_slug'' (PStr new_slug) a else a) rows"

definition update_event :: "string \<Rightarrow> pydict \<Rightarrow> world \<Rightarrow> (error + pydict) \<times> world" where
  "update_event slug payload w =
     (let d = read_data w in
      case find (slug_is slug) (events d) of
        None \<Rightarrow> (Inl (ValueError ''Event not found''), w)
      | Some found \<Rightarrow>
          let new_slug = slugify (py_str (py_or (dget payload ''slug'') (PStr slug))) in
          if new_slug \<noteq> slug \<and> list_ex (slug_is new_slug) (events d)
            then (Inl (ValueError ''Event slug already exists''), w)
          else
            case join_value (dget_or found ''tags'' (PList [])) of
              Inl e \<Rightarrow> (Inl e, w)
            | Inr joined \<Rightarrow>
                let change = (\<lambda>ev. dupdate ev
                      [(''slug'', PStr new_slug),
                       (''name'', text_field payload ''name'' (dget_or found ''name'' (PStr []))),
                       (''description'',
                          text_field payload ''description'' (dget_or found ''description'' (PStr []))),
                       (''website_url'',
                          text_field payload ''website_url'' (dget_or found ''website_url'' (PStr []))),
                       (''start_at'',
                          text_field payload ''start_at'' (dget_or found ''start_at'' (PStr []))),
                       (''end_at'', text_field payload ''end_at'' (dget_or found ''end_at'' (PStr []))),
                       (''city'', text_field payload ''city'' (dget_or found ''city'' (PStr []))),
                       (''country'',
                          text_field payload ''country'' (dget_or found ''country'' (PStr []))),
                       (''tags'',
                          PList (parse_tags (py_str (dget_or payload ''tags'' (PStr joined)))))]);
                    d1 = d\<lparr>events := update_first (slug_is slug) change (events d)\<rparr>;
                    d2 = (if new_slug \<noteq> slug
                          then d1\<lparr>attendances := rename_rows slug new_slug (attendances d1)\<rparr>
                          else d1)
                in (Inr (change found), write_data d2 w))"

definition refers_to :: "string \<Rightarrow> pydict \<Rightarrow> bool" where
  "refers_to slug row = py_eq (dget row ''event_slug'') (PStr slug)"

definition delete_event :: "string \<Rightarrow> world \<Rightarrow> (error + unit) \<times> world" where
  "delete_event slug w =
     (let d = read_data w;
          before = length (events d);
          d1 = d\<lparr>events := filter (\<lambda>e. \<not> slug_is slug e) (events d)\<rparr>
      in if length (events d1) = before then (Inl (ValueError ''Event not found''), w)
         else
           let d2 = d1\<lparr>attendances := filter (\<lambda>a. \<not> refers_to slug a) (attendances d1)\<rparr>;
               d3 = d2\<lparr>side_events := filter (\<lambda>a. \<not> refers_to slug a) (side_events d2)\<rparr>;
               d4 = d3\<lparr>meeting_requests :=
                          filter (\<lambda>a. \<not> refers_to slug a) (meeting_requests d3)\<rparr>
           in (Inr (), write_data d4 w))"

section \<open>Attendance ledger\<close>

definition same_pair :: "string \<Rightarrow> string \<Rightarrow> pydict \<Rightarrow> bool" where
  "same_pair event_slug user_id row =
     (py_eq (dget row ''event_slug'') (PStr event_slug)
      \<and> py_eq (dget row ''user_id'') (PStr user_id))"

text \<open>
  \<open>now\<close> is the reading of the clock (\<open>now_iso()\<close>) at the call.
\<close>

definition upsert_attendance ::
  "string \<Rightarrow> string \<Rightarrow> string \<Rightarrow> string \<Rightarrow> string \<Rightarrow> world \<Rightarrow> (error + pydict) \<times> world" where
  "upsert_attendance event_slug user_id state visibility now w =
     (if state \<notin> {''INTERESTED'', ''ATTENDING''}
        then (Inl (ValueError ''Invalid attendance state''), w)
      else if visibility \<notin> {''PUBLIC'', ''VERIFIED_ONLY'', ''PRIVATE''}
        then (Inl (ValueError ''Invalid attendance visibility''), w)
      else
        let d = read_data w in
        if \<not> list_ex (slug_is event_slug) (events d)
          then (Inl (ValueError ''Event not found''), w)
        else
          let existing = find (same_pair event_slug user_id) (attendances d) in
          if dict_truthy existing then
            let change = (\<lambda>row. dupdate row
                  [(''state'', PStr state), (''visibility'', PStr visibility),
                   (''updated_at'', PStr now)])
            in (Inr (change (the existing)),
                write_data (d\<lparr>attendances :=
                     update_first (same_pair event_slug user_id) change (attendances d)\<rparr>) w)
          else
            let created =
                  [(''event_slug'', PStr event_slug),
                   (''user_id'', PStr user_id),
                   (''state'', PStr state),
                   (''visibility'', PStr visibility),
                   (''updated_at'', PStr now)]
            in (Inr created, write_data (d\<lparr>attendances := attendances d @ [created]\<rparr>) w))"

section \<open>Notions used in the statements\<close>

text \<open>
  The conditions of the loop body other than the disclosure decision: the state filter, the
  resolution of the row's user, and the company and title filters on that user.
\<close>

definition passes_filters ::
  "(string \<rightharpoonup> pydict) \<Rightarrow> string \<Rightarrow> string \<Rightarrow> string option \<Rightarrow> pydict \<Rightarrow> bool" where
  "passes_filters usrs c t state row =
     ((str_truthy state \<longrightarrow> py_eq (dget row ''state'') (PStr (the state)))
      \<and> dict_truthy (usrs (py_str (dget row ''user_id'')))
      \<and> (c \<noteq> [] \<longrightarrow> py_in c (lower (py_str (dget_or (the (usrs (py_str (dget row ''user_id''))))
                                                     ''company'' (PStr [])))))
      \<and> (t \<noteq> [] \<longrightarrow> py_in t (lower (py_str (dget_or (the (usrs (py_str (dget row ''user_id''))))
                                                     ''title'' (PStr []))))))"

text \<open>The disclosure record of a row, with the user the index resolves it to.\<close>

definition disclosed :: "(string \<rightharpoonup> pydict) \<Rightarrow> pydict \<Rightarrow> pydict" where
  "disclosed usrs row = disclose (the (usrs (py_str (dget row ''user_id'')))) row"

text \<open>The attendance rows of an event, in stored order, and those the loop keeps, in sorted order.\<close>

definition event_rows :: "world \<Rightarrow> string \<Rightarrow> pydict list" where
  "event_rows w event_slug =
     filter (\<lambda>a. py_eq (dget a ''event_slug'') (PStr event_slug)) (attendances (read_data w))"

definition kept_rows ::
  "world \<Rightarrow> string \<Rightarrow> pydict option \<Rightarrow> string option \<Rightarrow> string option \<Rightarrow> string option
    \<Rightarrow> pydict list" where
  "kept_rows w ev viewer company title state =
     filter (\<lambda>r. passes_filters (users_by_id (users (read_data w)))
                    (lower (strip (str_or_empty company)))
                    (lower (strip (str_or_empty title))) state r
                 \<and> can_see viewer r)
       (sort_rows (event_rows w ev))"

text \<open>The store with the attendance rows that satisfy \<open>P\<close> removed.\<close>

definition without_rows :: "(pydict \<Rightarrow> bool) \<Rightarrow> world \<Rightarrow> world" where
  "without_rows P w =
     w\<lparr>disk := Some ((read_data w)\<lparr>attendances :=
                        filter (\<lambda>r. \<not> P r) (attendances (read_data w))\<rparr>)\<rparr>"

text \<open>A viewer whom the first branch of the disclosure decision accepts.\<close>

definition is_admin :: "pydict option \<Rightarrow> bool" where
  "is_admin viewer = (dict_truthy viewer \<and> py_eq (dget (the viewer) ''role'') (PStr ''ADMIN''))"

text \<open>The sort key read off a disclosure record, and the filter test on one of its fields.\<close>

definition item_key :: "pydict \<Rightarrow> string \<times> string" where
  "item_key it = (py_str (dget it ''updated_at''), py_str (dget it ''user_id''))"

definition text_matches :: "string \<Rightarrow> pyval \<Rightarrow> bool" where
  "text_matches c v = (c = [] \<or> py_in c (lower (py_str v)))"

text \<open>The change \<open>upsert_attendance\<close> makes to an existing row, and the row it appends.\<close>

definition stamped :: "string \<Rightarrow> string \<Rightarrow> string \<Rightarrow> pydict \<Rightarrow> pydict" where
  "stamped st vis now row =
     dupdate row [(''state'', PStr st), (''visibility'', PStr vis), (''updated_at'', PStr now)]"

definition created_row :: "string \<Rightarrow> string \<Rightarrow> string \<Rightarrow> string \<Rightarrow> string \<Rightarrow> pydict" where
  "created_row ev uid st vis now =
     [(''event_slug'', PStr ev), (''user_id'', PStr uid), (''state'', PStr st),
      (''visibility'', PStr vis), (''updated_at'', PStr now)]"

text \<open>The slug \<open>update_event\<close> computes from the payload, and the change it makes to the event.\<close>

definition new_slug_of :: "string \<Rightarrow> pydict \<Rightarrow> string" where
  "new_slug_of slug payload = slugify (py_str (py_or (dget payload ''slug'') (PStr slug)))"

definition event_change :: "string \<Rightarrow> pydict \<Rightarrow> pydict \<Rightarrow> string \<Rightarrow> pydict \<Rightarrow> pydict" where
  "event_change new_slug payload found joined ev =
     dupdate ev
       [(''slug'', PStr new_slug),
        (''name'', text_field payload ''name'' (dget_or found ''name'' (PStr []))),
        (''description'',
           text_field payload ''description'' (dget_or found ''description'' (PStr []))),
        (''website_url'',
           text_field payload ''website_url'' (dget_or found ''website_url'' (PStr []))),
        (''start_at'', text_field payload ''start_at'' (dget_or found ''start_at'' (PStr []))),
        (''end_at'', text_field payload ''end_at'' (dget_or found ''end_at'' (PStr []))),
        (''city'', text_field payload ''city'' (dget_or found ''city'' (PStr []))),
        (''country'', text_field payload ''country'' (dget_or found ''country'' (PStr []))),
        (''tags'', PList (parse_tags (py_str (dget_or payload ''tags'' (PStr joined)))))]"

text \<open>
  A text of ASCII characters; the slug \<open>create_event\<close> computes from the payload, and the
  event it builds.
\<close>

definition is_ascii :: "string \<Rightarrow> bool" where
  "is_ascii s = list_all (\<lambda>c. (of_char c :: nat) < 128) s"

definition payload_slug :: "pydict \<Rightarrow> string" where
  "payload_slug payload =
     slugify (py_str (py_or (py_or (dget payload ''slug'') (dget payload ''name'')) (PStr [])))"

definition new_event :: "string \<Rightarrow> pydict \<Rightarrow> pydict" where
  "new_event slug payload =
     [(''slug'', PStr slug),
      (''name'', text_field payload ''name'' (PStr [])),
      (''description'', text_field payload ''description'' (PStr [])),
      (''website_url'', text_field payload ''website_url'' (PStr [])),
      (''start_at'', text_field payload ''start_at'' (PStr [])),
      (''end_at'', text_field payload ''end_at'' (PStr [])),
      (''city'', text_field payload ''city'' (PStr [])),
      (''country'', text_field payload ''country'' (PStr [])),
      (''tags'', PList (parse_tags (py_str (dget_or payload ''tags'' (PStr [])))))]"

subsection \<open>The seeded store of the test suite\<close>

text \<open>
  The store that \<open>_write_seed\<close> of \<open>tests/test_app.py\<close> writes: one event, three users
  and two attendance rows. The concrete instances of the theorems are stated on it.
\<close>

definition seed_data :: data where
  "seed_data =
     \<lparr>events =
        [[(''slug'', PStr ''event-a''), (''name'', PStr ''Event A''),
          (''description'', PStr ''Test event''),
          (''website_url'', PStr ''https://example.com''),
          (''start_at'', PStr ''2026-04-12T09:00:00Z''),
          (''end_at'', PStr ''2026-04-14T17:00:00Z''),
          (''city'', PStr ''Las Vegas''), (''country'', PStr ''US''),
          (''tags'', PList [''payments''])]],
      users =
        [[(''id'', PStr ''admin''), (''email'', PStr ''admin@local.dev''),
          (''name'', PStr ''Admin''), (''role'', PStr ''ADMIN''),
          (''verified_email_domain'', PBool True), (''company'', PStr ''AdminCo''),
          (''title'', PStr ''Admin''), (''plan'', PStr ''PRO''),
          (''subscription_status'', PStr ''ACTIVE'')],
         [(''id'', PStr ''free''), (''email'', PStr ''free@local.dev''),
          (''name'', PStr ''Free User''), (''role'', PStr ''USER''),
          (''verified_email_domain'', PBool False), (''company'', PStr ''Indie''),
          (''title'', PStr ''Consultant''), (''plan'', PStr ''FREE''),
          (''subscription_status'', PStr ''CANCELED'')],
         [(''id'', PStr ''verified''), (''email'', PStr ''verified@stripe.com''),
          (''name'', PStr ''Verified User''), (''role'', PStr ''USER''),
          (''verified_email_domain'', PBool True), (''company'', PStr ''Stripe''),
          (''title'', PStr ''Partnerships''), (''plan'', PStr ''FREE''),
          (''subscription_status'', PStr ''CANCELED'')]],
      attendances =
        [[(''event_slug'', PStr ''event-a''), (''user_id'', PStr ''free''),
          (''state'', PStr ''INTERESTED''), (''visibility'', PStr ''PUBLIC''),
          (''updated_at'', PStr ''2026-02-08T12:00:00Z'')],
         [(''event_slug'', PStr ''event-a''), (''user_id'', PStr ''verified''),
          (''state'', PStr ''ATTENDING''), (''visibility'', PStr ''VERIFIED_ONLY''),
          (''updated_at'', PStr ''2026-02-08T12:01:00Z'')]],
      side_events = [],
      meeting_requests = []\<rparr>"

definition seed_world :: world where
  "seed_world = \<lparr>disk = Some seed_data, writes = 0\<rparr>"

text \<open>A seeded user as the viewer of a request.\<close>

definition seed_user :: "string \<Rightarrow> pydict option" where
  "seed_user uid = get_user_by_id seed_world uid"

text \<open>The seeded store after the user \<open>free\<close> has made their attendance private.\<close>

definition private_world :: world where
  "private_world = snd (upsert_attendance ''event-a'' ''free'' ''ATTENDING'' ''PRIVATE''
                          ''2026-02-08T12:02:00Z'' seed_world)"

definition private_row :: pydict where
  "private_row =
     [(''event_slug'', PStr ''event-a''), (''user_id'', PStr ''free''),
      (''state'', PStr ''ATTENDING''), (''visibility'', PStr ''PRIVATE''),
      (''updated_at'', PStr ''2026-02-08T12:02:00Z'')]"

text \<open>A store whose only attendance row has a misspelled visibility.\<close>

definition odd_row :: pydict where
  "odd_row =
     [(''event_slug'', PStr ''event-a''), (''user_id'', PStr ''free''),
      (''state'', PStr ''INTERESTED''), (''visibility'', PStr ''public''),
      (''updated_at'', PStr ''2026-02-08T12:00:00Z'')]"

definition odd_world :: world where
  "odd_world = \<lparr>disk = Some (seed_data\<lparr>attendances := [odd_row]\<rparr>), writes = 0\<rparr>"

text \<open>
  A store whose only attendance row has a misspelled visibility and a user that no user
  record resolves.
\<close>

definition ghost_row :: pydict where
  "ghost_row =
     [(''event_slug'', PStr ''event-a''), (''user_id'', PStr ''ghost''),
      (''state'', PStr ''INTERESTED''), (''visibility'', PStr ''public''),
      (''updated_at'', PStr ''2026-02-08T12:00:00Z'')]"

definition ghost_world :: world where
  "ghost_world = \<lparr>disk = Some (seed_data\<lparr>attendances := [ghost_row]\<rparr>), writes = 0\<rparr>"

text \<open>The seeded store with the second row stored without its \<open>updated_at\<close>, both rows public.\<close>

definition undated_row :: pydict where
  "undated_row =
     [(''event_slug'', PStr ''event-a''), (''user_id'', PStr ''verified''),
      (''state'', PStr ''ATTENDING''), (''visibility'', PStr ''PUBLIC'')]"

definition undated_world :: world where
  "undated_world =
     \<lparr>disk = Some (seed_data\<lparr>attendances := [hd (attendances seed_data), undated_row]\<rparr>),
      writes = 0\<rparr>"

text \<open>The seeded row of the user \<open>verified\<close>.\<close>

definition verified_row :: pydict where
  "verified_row =
     [(''event_slug'', PStr ''event-a''), (''user_id'', PStr ''verified''),
      (''state'', PStr ''ATTENDING''), (''visibility'', PStr ''VERIFIED_ONLY''),
      (''updated_at'', PStr ''2026-02-08T12:01:00Z'')]"

text \<open>The seeded store after the user \<open>admin\<close> has registered once.\<close>

definition once_world :: world where
  "once_world = snd (upsert_attendance ''event-a'' ''admin'' ''ATTENDING'' ''PUBLIC''
                       ''2026-02-09T08:00:00Z'' seed_world)"

text \<open>The seeded store after \<open>event-a\<close> has been renamed.\<close>

definition renamed_world :: world where
  "renamed_world = snd (update_event ''event-a''
                          [(''slug'', PStr ''Event B''), (''name'', PStr ''Event B'')] seed_world)"

text \<open>The event created from the payload \<open>{slug: "", name: "Foo Bar"}\<close>.\<close>

definition foo_bar_event :: pydict where
  "foo_bar_event =
     [(''slug'', PStr ''foo-bar''), (''name'', PStr ''Foo Bar''), (''description'', PStr ''''),
      (''website_url'', PStr ''''), (''start_at'', PStr ''''), (''end_at'', PStr ''''),
      (''city'', PStr ''''), (''country'', PStr ''''), (''tags'', PList [])]"

text \<open>A store whose only event has the slug \<open>foo-bar\<close> and another name.\<close>

definition taken_event :: pydict where
  "taken_event =
     [(''slug'', PStr ''foo-bar''), (''name'', PStr ''Launch Party''),
      (''description'', PStr ''''), (''website_url'', PStr ''''), (''start_at'', PStr ''''),
      (''end_at'', PStr ''''), (''city'', PStr ''''), (''country'', PStr ''''),
      (''tags'', PList [])]"

definition taken_world :: world where
  "taken_world = snd (create_event [(''slug'', PStr ''foo-bar''), (''name'', PStr ''Launch Party'')]
                        \<lparr>disk = None, writes = 0\<rparr>)"

section \<open>Basic facts about values and dictionaries\<close>

lemma py_eq_PStr [simp]: "py_eq v (PStr s) = (v = PStr s)"
  by (cases v) auto

lemma dget_Nil [simp]: "dget [] k = PNone"
  by (simp add: dget_def)

section \<open>The listing as a filter of the sorted rows\<close>

lemma visible_loop_eq:
  "visible_loop usrs viewer c t state rows =
     map (disclosed usrs)
       (filter (\<lambda>r. passes_filters usrs c t state r \<and> can_see viewer r) rows)"
  by (induction rows) (auto simp: passes_filters_def disclosed_def Let_def)

lemma sort_rows_filter: "sort_rows (filter P xs) = filter P (sort_rows xs)"
proof -
  have "sort_rows (filter P xs) = rev (sort_key row_key (filter P (rev xs)))"
    by (simp add: sort_rows_def rev_filter)
  also have "\<dots> = rev (filter P (sort_key row_key (rev xs)))"
    by (simp add: filter_sort)
  also have "\<dots> = filter P (sort_rows xs)"
    by (simp add: sort_rows_def rev_filter)
  finally show ?thesis .
qed

lemma set_sort_rows [simp]: "set (sort_rows xs) = set xs"
  by (simp add: sort_rows_def)

lemma length_sort_rows [simp]: "length (sort_rows xs) = length xs"
  by (simp add: sort_rows_def)

lemma sorted_sort_rows: "sorted_wrt (\<lambda>a b. row_key b \<le> row_key a) (sort_rows xs)"
proof -
  have "sorted (map row_key (sort_key row_key (rev xs)))"
    by (rule sorted_sort_key)
  then have "sorted_wrt (\<lambda>a b. row_key a \<le> row_key b) (sort_key row_key (rev xs))"
    by (simp add: sorted_map)
  then show ?thesis
    by (simp add: sort_rows_def sorted_wrt_rev)
qed

lemma visible_attendees_eq:
  "visible_attendees w ev viewer company title state =
     map (disclosed (users_by_id (users (read_data w))))
       (filter (\<lambda>r. passes_filters (users_by_id (users (read_data w)))
                       (lower (strip (str_or_empty company)))
                       (lower (strip (str_or_empty title))) state r
                    \<and> can_see viewer r)
          (sort_rows (event_rows w ev)))"
  by (simp add: visible_attendees_def Let_def visible_loop_eq event_rows_def)

lemma read_data_without_rows:
  "read_data (without_rows P w) =
     (read_data w)\<lparr>attendances := filter (\<lambda>r. \<not> P r) (attendances (read_data w))\<rparr>"
  by (simp add: without_rows_def read_data_def)

lemma hidden_rows_no_effect:
  assumes "\<And>r. P r \<Longrightarrow> \<not> can_see viewer r"
  shows "visible_attendees (without_rows P w) ev viewer company title state =
         visible_attendees w ev viewer company title state"
proof -
  have "\<And>Q xs. filter (\<lambda>r. Q r \<and> can_see viewer r) (filter (\<lambda>r. \<not> P r) xs)
            = filter (\<lambda>r. Q r \<and> can_see viewer r) xs"
    using assms by (auto intro: filter_cong)
  moreover have "event_rows (without_rows P w) ev = filter (\<lambda>r. \<not> P r) (event_rows w ev)"
    by (auto simp: event_rows_def read_data_without_rows intro: filter_cong)
  ultimately show ?thesis
    by (simp only: visible_attendees_eq sort_rows_filter read_data_without_rows)
       (simp del: filter_filter)
qed

lemma visible_attendees_kept:
  "visible_attendees w ev viewer company title state =
     map (disclosed (users_by_id (users (read_data w))))
       (kept_rows w ev viewer company title state)"
  by (simp add: visible_attendees_eq kept_rows_def)

lemma hidden_rows_no_effect_listing:
  assumes "\<And>r. P r \<Longrightarrow> \<not> can_see viewer r"
  shows "list_visible_attendees (without_rows P w) ev viewer company title state =
         list_visible_attendees w ev viewer company title state"
  using hidden_rows_no_effect [OF assms]
  by (simp add: list_visible_attendees_def)

lemma visible_row_disclosed:
  assumes "r \<in> set (event_rows w ev)"
    and "passes_filters (users_by_id (users (read_data w)))
           (lower (strip (str_or_empty company))) (lower (strip (str_or_empty title))) state r"
    and "can_see viewer r"
  shows "disclosed (users_by_id (users (read_data w))) r
           \<in> set (visible_attendees w ev viewer company title state)"
  using assms by (simp add: visible_attendees_kept kept_rows_def)

lemma items_kept:
  "items (list_visible_attendees w ev viewer company title state)
     = map (disclosed (users_by_id (users (read_data w))))
         (take (limit (list_visible_attendees w ev viewer company title state))
            (kept_rows w ev viewer company title state))"
  by (simp add: list_visible_attendees_def Let_def visible_attendees_kept take_map)

lemma kept_row_in_items:
  assumes "r \<in> set (take (limit (list_visible_attendees w ev viewer company title state))
                     (kept_rows w ev viewer company title state))"
  shows "disclosed (users_by_id (users (read_data w))) r
           \<in> set (items (list_visible_attendees w ev viewer company title state))"
  using assms by (simp only: items_kept set_map) (rule imageI)

lemma passing_row_kept:
  assumes "r \<in> set (event_rows w ev)"
    and "passes_filters (users_by_id (users (read_data w)))
           (lower (strip (str_or_empty company))) (lower (strip (str_or_empty title))) state r"
    and "can_see viewer r"
  shows "r \<in> set (kept_rows w ev viewer company title state)"
  using assms by (simp add: kept_rows_def)

lemma can_see_admin: "is_admin viewer \<Longrightarrow> can_see viewer r"
  by (simp add: can_see_def is_admin_def)

lemma can_see_private:
  "dget r ''visibility'' = PStr ''PRIVATE'' \<Longrightarrow>
   can_see viewer r = (is_admin viewer
      \<or> (dict_truthy viewer \<and> py_eq (dget (the viewer) ''id'') (dget r ''user_id'')))"
  by (auto simp: can_see_def is_admin_def)

lemma can_see_verified_only:
  "dget r ''visibility'' = PStr ''VERIFIED_ONLY'' \<Longrightarrow>
   can_see viewer r = can_view_verified_only viewer"
  by (auto simp: can_see_def can_view_verified_only_def)

lemma can_see_unknown:
  "dget r ''visibility'' \<notin> {PStr ''PUBLIC'', PStr ''VERIFIED_ONLY'', PStr ''PRIVATE''} \<Longrightarrow>
   can_see viewer r = is_admin viewer"
  by (auto simp: can_see_def is_admin_def)

lemma can_view_verified_only_iff:
  "can_view_verified_only viewer =
     (\<exists>v. viewer = Some v \<and>
        (dget v ''role'' = PStr ''ADMIN'' \<or> truthy (dget v ''verified_email_domain'')
         \<or> (dget v ''plan'' = PStr ''PRO'' \<and> dget v ''subscription_status'' = PStr ''ACTIVE'')))"
  by (cases viewer) (auto simp: can_view_verified_only_def dict_truthy_def)

lemma users_by_id_snoc:
  "users_by_id (us @ [x]) = (users_by_id us)(py_str (dget x ''id'') \<mapsto> x)"
  by (simp add: users_by_id_def)

lemma users_by_id_key: "users_by_id us k = Some u \<Longrightarrow> py_str (dget u ''id'') = k"
proof (induction us arbitrary: u rule: rev_induct)
  case Nil
  then show ?case by (simp add: users_by_id_def)
next
  case (snoc x xs)
  show ?case
  proof (cases "k = py_str (dget x ''id'')")
    case True
    with snoc.prems have "u = x"
      by (simp add: users_by_id_snoc)
    with True show ?thesis by simp
  next
    case False
    with snoc.prems have "users_by_id xs k = Some u"
      by (simp add: users_by_id_snoc)
    then show ?thesis by (rule snoc.IH)
  qed
qed

lemma take_min_length: "take n xs = take (min n (length xs)) xs"
  by (cases "n \<le> length xs") (simp_all add: min_def)

lemma kept_rows_sorted:
  "sorted_wrt (\<lambda>a b. row_key a \<ge> row_key b) (kept_rows w ev viewer company title state)"
  unfolding kept_rows_def by (intro sorted_wrt_filter sorted_sort_rows)

lemma length_kept_rows:
  "length (kept_rows w ev viewer company title state) =
   length (filter (\<lambda>r. passes_filters (users_by_id (users (read_data w)))
                          (lower (strip (str_or_empty company)))
                          (lower (strip (str_or_empty title))) state r
                       \<and> can_see viewer r)
             (event_rows w ev))"
  unfolding kept_rows_def by (simp only: sort_rows_filter [symmetric] length_sort_rows)

lemma set_kept_rows:
  "r \<in> set (kept_rows w ev viewer company title state) \<Longrightarrow>
   r \<in> set (event_rows w ev) \<and> can_see viewer r
   \<and> dict_truthy (users_by_id (users (read_data w)) (py_str (dget r ''user_id'')))"
  by (simp add: kept_rows_def passes_filters_def)

lemma item_key_disclosed:
  assumes "dict_truthy (users_by_id us (py_str (dget r ''user_id'')))"
    and "map_of r ''updated_at'' \<noteq> None" and "map_of r ''user_id'' \<noteq> None"
  shows "item_key (disclosed (users_by_id us) r) = row_key r"
proof -
  from assms(1) obtain u where u: "users_by_id us (py_str (dget r ''user_id'')) = Some u"
    by (auto simp: dict_truthy_def split: option.splits)
  then have "py_str (dget u ''id'') = py_str (dget r ''user_id'')"
    by (rule users_by_id_key)
  with u assms(2,3) show ?thesis
    by (auto simp: item_key_def disclosed_def disclose_def row_key_def dget_def dget_or_def)
qed

lemma no_filter_text [simp]: "lower (strip (str_or_empty None)) = []"
  by (simp add: lower_def strip_def strip_with_def str_or_empty_def)

lemma disclosed_company_title:
  "dget (disclosed usrs r) ''company''
     = dget_or (the (usrs (py_str (dget r ''user_id'')))) ''company'' (PStr [])"
  "dget (disclosed usrs r) ''title''
     = dget_or (the (usrs (py_str (dget r ''user_id'')))) ''title'' (PStr [])"
  by (simp_all add: disclosed_def disclose_def dget_def)

lemma passes_filters_split:
  "passes_filters usrs c t state r =
     (passes_filters usrs [] [] state r
      \<and> text_matches c (dget (disclosed usrs r) ''company'')
      \<and> text_matches t (dget (disclosed usrs r) ''title''))"
  by (auto simp: passes_filters_def text_matches_def disclosed_company_title)

lemma visible_attendees_filtered:
  "visible_attendees w ev viewer company title state
     = filter (\<lambda>it. text_matches (lower (strip (str_or_empty company))) (dget it ''company'')
                   \<and> text_matches (lower (strip (str_or_empty title))) (dget it ''title''))
         (visible_attendees w ev viewer None None state)"
proof -
  let ?us = "users_by_id (users (read_data w))"
  let ?c = "lower (strip (str_or_empty company))"
  let ?t = "lower (strip (str_or_empty title))"
  have "kept_rows w ev viewer company title state
        = filter (\<lambda>r. text_matches ?c (dget (disclosed ?us r) ''company'')
                     \<and> text_matches ?t (dget (disclosed ?us r) ''title''))
            (kept_rows w ev viewer None None state)"
    unfolding kept_rows_def no_filter_text filter_filter
    by (rule filter_cong [OF refl]) (use passes_filters_split [of ?us ?c ?t] in blast)
  then show ?thesis
    by (simp add: visible_attendees_kept filter_map o_def)
qed

lemma visible_item_origin:
  assumes "it \<in> set (visible_attendees w ev viewer company title state)"
  shows "\<exists>r \<in> set (event_rows w ev).
           can_see viewer r \<and> it = disclosed (users_by_id (users (read_data w))) r"
  using assms set_kept_rows [of _ w ev viewer company title state]
  by (auto simp: visible_attendees_kept)

lemma read_write_data [simp]: "read_data (write_data d w) = d"
  by (simp add: read_data_def write_data_def)

lemma writes_write_data [simp]: "writes (write_data d w) = Suc (writes w)"
  by (simp add: write_data_def)

lemma map_of_dset: "map_of (dset k v d) = (map_of d)(k \<mapsto> v)"
  by (simp add: dset_def update_conv')

lemma dget_dset: "dget (dset k v d) k' = (if k' = k then v else dget d k')"
  by (simp add: dget_def map_of_dset)

lemma dset_triv: "map_of d k = Some v \<Longrightarrow> dset k v d = d"
  by (simp add: dset_def update_triv)

lemma dset_dset_same: "dset k v (dset k v' d) = dset k v d"
  by (simp add: dset_def update_last)

lemma dset_not_Nil [simp]: "dset k v d \<noteq> []"
  by (cases d) (simp_all add: dset_def)

lemma dupdate_Cons: "dupdate d ((k, v) # kvs) = dupdate (dset k v d) kvs"
  by (simp add: dupdate_def)

lemma dupdate_Nil: "dupdate d [] = d"
  by (simp add: dupdate_def)

lemma length_update_first [simp]: "length (update_first P f xs) = length xs"
  by (induction xs) auto

lemma find_update_first:
  "find P xs = Some x \<Longrightarrow> P (f x) \<Longrightarrow> find P (update_first P f xs) = Some (f x)"
  by (induction xs) (auto split: if_splits)

lemma find_snoc_new: "find P xs = None \<Longrightarrow> P c \<Longrightarrow> find P (xs @ [c]) = Some c"
  by (induction xs) (auto split: if_splits)

lemma update_first_cong:
  "find P xs = Some x \<Longrightarrow> f x = g x \<Longrightarrow> update_first P f xs = update_first P g xs"
  by (induction xs) (auto split: if_splits)

lemma list_all2_update_first:
  assumes "\<And>x. R x x" and "\<And>x. R x (f x)"
  shows "list_all2 R xs (update_first P f xs)"
  using assms by (induction xs) (auto intro: list_all2_refl)

lemma filter_length_update_first:
  assumes "\<And>x. Q (f x) = Q x"
  shows "length (filter Q (update_first P f xs)) = length (filter Q xs)"
  using assms by (induction xs) auto

lemma same_pair_Nil [simp]: "\<not> same_pair ev uid []"
  by (simp add: same_pair_def)

lemma find_same_pair_truthy:
  "dict_truthy (find (same_pair ev uid) xs) = (find (same_pair ev uid) xs \<noteq> None)"
proof (cases "find (same_pair ev uid) xs")
  case None
  then show ?thesis by (simp add: dict_truthy_def)
next
  case (Some x)
  then have "same_pair ev uid x"
    by (auto simp: find_Some_iff)
  then have "x \<noteq> []" by auto
  with Some show ?thesis by (simp add: dict_truthy_def)
qed

lemma stamped_eq:
  "stamped st vis now row =
     dset ''updated_at'' (PStr now) (dset ''visibility'' (PStr vis) (dset ''state'' (PStr st) row))"
  by (simp add: stamped_def dupdate_Cons dupdate_Nil)

lemma same_pair_stamped [simp]: "same_pair ev uid (stamped st vis now row) = same_pair ev uid row"
  by (simp add: same_pair_def stamped_eq dget_dset)

lemma stamped_fields:
  "map_of (stamped st vis now row) ''state'' = Some (PStr st)"
  "map_of (stamped st vis now row) ''visibility'' = Some (PStr vis)"
  by (simp_all add: stamped_eq map_of_dset)

lemma restamp:
  assumes "map_of row ''state'' = Some (PStr st)" and "map_of row ''visibility'' = Some (PStr vis)"
  shows "stamped st vis now row = dset ''updated_at'' (PStr now) row"
  using assms by (simp add: stamped_eq dset_triv)

lemma upsert_attendance_cases:
  "upsert_attendance ev uid st vis now w =
     (if st \<notin> {''INTERESTED'', ''ATTENDING''}
        then (Inl (ValueError ''Invalid attendance state''), w)
      else if vis \<notin> {''PUBLIC'', ''VERIFIED_ONLY'', ''PRIVATE''}
        then (Inl (ValueError ''Invalid attendance visibility''), w)
      else if \<not> list_ex (slug_is ev) (events (read_data w))
        then (Inl (ValueError ''Event not found''), w)
      else case find (same_pair ev uid) (attendances (read_data w)) of
        Some x \<Rightarrow> (Inr (stamped st vis now x),
                   write_data ((read_data w)\<lparr>attendances :=
                      update_first (same_pair ev uid) (stamped st vis now)
                        (attendances (read_data w))\<rparr>) w)
      | None \<Rightarrow> (Inr (created_row ev uid st vis now),
                 write_data ((read_data w)\<lparr>attendances :=
                    attendances (read_data w) @ [created_row ev uid st vis now]\<rparr>) w))"
proof (cases "find (same_pair ev uid) (attendances (read_data w))")
  case None
  then show ?thesis
    by (simp add: upsert_attendance_def Let_def dict_truthy_def created_row_def)
next
  case (Some x)
  have "dict_truthy (find (same_pair ev uid) (attendances (read_data w)))"
    unfolding find_same_pair_truthy using Some by simp
  with Some show ?thesis
    by (simp add: upsert_attendance_def Let_def stamped_def [abs_def])
qed

lemma upsert_attendance_after:
  assumes "upsert_attendance ev uid st vis now w = (Inr r, w')"
  shows "st \<in> {''INTERESTED'', ''ATTENDING''} \<and> vis \<in> {''PUBLIC'', ''VERIFIED_ONLY'', ''PRIVATE''}
         \<and> list_ex (slug_is ev) (events (read_data w'))
         \<and> find (same_pair ev uid) (attendances (read_data w')) = Some r
         \<and> map_of r ''state'' = Some (PStr st) \<and> map_of r ''visibility'' = Some (PStr vis)"
proof (cases "find (same_pair ev uid) (attendances (read_data w))")
  case None
  have "same_pair ev uid (created_row ev uid st vis now)"
    by (simp add: same_pair_def created_row_def dget_def)
  with None show ?thesis
    using assms
    by (auto simp: upsert_attendance_cases find_snoc_new split: if_splits)
       (simp_all add: created_row_def)
next
  case (Some x)
  then have "same_pair ev uid x"
    by (auto simp: find_Some_iff)
  with Some show ?thesis
    using assms
    by (auto simp: upsert_attendance_cases find_update_first stamped_fields split: if_splits)
qed

lemma update_first_member:
  "find P xs = Some x \<Longrightarrow> f x \<in> set (update_first P f xs)"
  by (induction xs) (auto split: if_splits)

lemma dget_event_change_slug:
  "dget (event_change new_slug payload found joined ev) ''slug'' = PStr new_slug"
  by (simp add: event_change_def dupdate_Cons dupdate_Nil dget_dset)

lemma update_event_cases:
  "update_event slug payload w =
     (case find (slug_is slug) (events (read_data w)) of
        None \<Rightarrow> (Inl (ValueError ''Event not found''), w)
      | Some found \<Rightarrow>
          if new_slug_of slug payload \<noteq> slug
             \<and> list_ex (slug_is (new_slug_of slug payload)) (events (read_data w))
            then (Inl (ValueError ''Event slug already exists''), w)
          else
            case join_value (dget_or found ''tags'' (PList [])) of
              Inl e \<Rightarrow> (Inl e, w)
            | Inr joined \<Rightarrow>
                (Inr (event_change (new_slug_of slug payload) payload found joined found),
                 write_data
                   ((read_data w)
                      \<lparr>events := update_first (slug_is slug)
                           (event_change (new_slug_of slug payload) payload found joined)
                           (events (read_data w)),
                       attendances :=
                         (if new_slug_of slug payload \<noteq> slug
                          then rename_rows slug (new_slug_of slug payload)
                                 (attendances (read_data w))
                          else attendances (read_data w))\<rparr>) w))"
  by (simp add: update_event_def Let_def new_slug_of_def event_change_def [abs_def]
      split: option.splits sum.splits)

lemma update_event_renames:
  assumes "update_event slug payload w = (Inr ev', w')"
    and "new_slug_of slug payload \<noteq> slug"
  shows "attendances (read_data w')
           = rename_rows slug (new_slug_of slug payload) (attendances (read_data w))"
    and "writes w' = Suc (writes w)"
    and "ev' \<in> set (events (read_data w'))"
    and "dget ev' ''slug'' = PStr (new_slug_of slug payload)"
proof -
  let ?ns = "new_slug_of slug payload"
  from assms obtain found joined where
    f: "find (slug_is slug) (events (read_data w)) = Some found" and
    e: "ev' = event_change ?ns payload found joined found" and
    w: "w' = write_data
          ((read_data w)
             \<lparr>events := update_first (slug_is slug) (event_change ?ns payload found joined)
                  (events (read_data w)),
              attendances := rename_rows slug ?ns (attendances (read_data w))\<rparr>) w"
    by (auto simp: update_event_cases split: option.splits sum.splits if_splits)
  show "attendances (read_data w') = rename_rows slug ?ns (attendances (read_data w))"
    by (simp add: w)
  show "writes w' = Suc (writes w)"
    by (simp add: w)
  show "ev' \<in> set (events (read_data w'))"
    using update_first_member [OF f, of "event_change ?ns payload found joined"]
    by (simp add: w e)
  show "dget ev' ''slug'' = PStr ?ns"
    by (simp add: e dget_event_change_slug)
qed

lemma rename_rows_rowwise:
  "list_all2 (\<lambda>a b. if dget a ''event_slug'' = PStr slug
                     then dget b ''event_slug'' = PStr new_slug
                        \<and> (\<forall>k. k \<noteq> ''event_slug'' \<longrightarrow> map_of b k = map_of a k)
                     else b = a)
     rows (rename_rows slug new_slug rows)"
  unfolding rename_rows_def
  by (induction rows) (simp_all add: dget_dset map_of_dset)

lemma create_event_cases:
  "create_event payload w =
     (if payload_slug payload = [] then (Inl (ValueError ''Slug or name is required''), w)
      else if list_ex (slug_is (payload_slug payload)) (events (read_data w))
        then (Inl (ValueError ''Event slug already exists''), w)
      else if \<not> truthy (dget (new_event (payload_slug payload) payload) ''name'')
        then (Inl (ValueError ''Event name is required''), w)
      else (Inr (new_event (payload_slug payload) payload),
            write_data ((read_data w)\<lparr>events := events (read_data w)
                           @ [new_event (payload_slug payload) payload]\<rparr>) w))"
  by (simp add: create_event_def Let_def payload_slug_def new_event_def)

lemma starts_with_iff: "starts_with sub s \<longleftrightarrow> (\<exists>ys. s = sub @ ys)"
  by (induction sub s rule: starts_with.induct) auto

lemma py_in_iff: "py_in sub s \<longleftrightarrow> (\<exists>xs ys. s = xs @ sub @ ys)"
proof (induction s)
  case Nil
  then show ?case by auto
next
  case (Cons c cs)
  show ?case
  proof
    assume "py_in sub (c # cs)"
    then consider "starts_with sub (c # cs)" | "py_in sub cs" by auto
    then show "\<exists>xs ys. c # cs = xs @ sub @ ys"
    proof cases
      case 1
      then obtain ys where "c # cs = sub @ ys" by (auto simp: starts_with_iff)
      then have "c # cs = [] @ sub @ ys" by simp
      then show ?thesis by blast
    next
      case 2
      with Cons obtain xs ys where "cs = xs @ sub @ ys" by auto
      then have "c # cs = (c # xs) @ sub @ ys" by simp
      then show ?thesis by blast
    qed
  next
    assume "\<exists>xs ys. c # cs = xs @ sub @ ys"
    then obtain xs ys where e: "c # cs = xs @ sub @ ys" by auto
    show "py_in sub (c # cs)"
    proof (cases xs)
      case Nil
      with e have "starts_with sub (c # cs)" by (auto simp: starts_with_iff)
      then show ?thesis by simp
    next
      case (Cons x xs')
      with e have "cs = xs' @ sub @ ys" by simp
      with Cons.IH have "py_in sub cs" by auto
      then show ?thesis by simp
    qed
  qed
qed

lemma py_in_suffix: "py_in sub (dropWhile p s) \<Longrightarrow> py_in sub s"
proof -
  assume "py_in sub (dropWhile p s)"
  then obtain xs ys where "dropWhile p s = xs @ sub @ ys" by (auto simp: py_in_iff)
  then have "s = (takeWhile p s @ xs) @ sub @ ys"
    by (metis append.assoc takeWhile_dropWhile_id)
  then show ?thesis unfolding py_in_iff by blast
qed

lemma py_in_dashes_rev: "py_in ''--'' (rev s) \<Longrightarrow> py_in ''--'' s"
proof -
  assume "py_in ''--'' (rev s)"
  then obtain xs ys where "rev s = xs @ ''--'' @ ys" by (auto simp: py_in_iff)
  then have "rev (rev s) = rev (xs @ ''--'' @ ys)" by simp
  then have "s = rev ys @ ''--'' @ rev xs" by simp
  then show ?thesis unfolding py_in_iff by blast
qed

lemma no_dashes_strip_with: "\<not> py_in ''--'' s \<Longrightarrow> \<not> py_in ''--'' (strip_with p s)"
  unfolding strip_with_def
  using py_in_dashes_rev py_in_suffix by blast

lemma no_dashes_collapse: "\<not> py_in ''--'' (collapse_dashes s)"
  by (induction s rule: collapse_dashes.induct) (subst collapse_dashes.simps, simp)

lemma set_replace_dashes: "set (replace_dashes s) \<subseteq> set s"
  by (induction s rule: replace_dashes.induct) auto

lemma set_collapse_dashes: "set (collapse_dashes s) \<subseteq> set s"
proof (induction s rule: collapse_dashes.induct)
  case (1 s)
  show ?case
  proof (cases "py_in ''--'' s")
    case True
    with 1 have "set (collapse_dashes (replace_dashes s)) \<subseteq> set (replace_dashes s)" by simp
    with True show ?thesis
      using set_replace_dashes [of s] by (subst collapse_dashes.simps) auto
  next
    case False
    then show ?thesis by (subst collapse_dashes.simps) simp
  qed
qed

lemma set_strip_with: "set (strip_with p s) \<subseteq> set s"
  unfolding strip_with_def
  by (metis set_dropWhileD set_rev subsetI)

lemma strip_with_ends:
  assumes "strip_with p s \<noteq> []"
  shows "\<not> p (hd (strip_with p s)) \<and> \<not> p (last (strip_with p s))"
proof -
  let ?t = "dropWhile p s"
  let ?u = "dropWhile p (rev ?t)"
  from assms have u: "?u \<noteq> []" by (simp add: strip_with_def)
  have t: "?t \<noteq> []"
  proof
    assume "?t = []"
    then have "?u = []" by (simp only: rev.simps dropWhile.simps)
    with u show False by blast
  qed
  have "last (strip_with p s) = hd ?u"
    using u by (simp add: strip_with_def last_rev)
  moreover have "\<not> p (hd ?u)"
    using u by (rule hd_dropWhile)
  moreover have "hd (strip_with p s) = last ?u"
    using u by (simp add: strip_with_def hd_rev)
  moreover have "last ?u = last (rev ?t)"
    using u by (metis last_appendR takeWhile_dropWhile_id)
  moreover have "last (rev ?t) = hd ?t"
    using t by (simp add: last_rev)
  moreover have "\<not> p (hd ?t)"
    using t by (rule hd_dropWhile)
  ultimately show ?thesis by simp
qed

lemma latin1_not_ascii:
  "\<forall>c \<in> set (latin1_upper @ latin1_lower @ latin1_caseless). \<not> (of_char c :: nat) < 128"
  by code_simp

lemma lower_char_ascii_alnum:
  "\<forall>c \<in> set (ascii_upper @ ascii_lower @ ascii_digits).
     lower_char c \<in> set (ascii_lower @ ascii_digits)"
  by code_simp

lemma lower_char_alnum_ascii:
  assumes "(of_char c :: nat) < 128" and "isalnum c"
  shows "lower_char c \<in> set (ascii_lower @ ascii_digits)"
proof -
  from assms(2) have "c \<in> set (ascii_upper @ ascii_lower @ ascii_digits)
      \<or> c \<in> set (latin1_upper @ latin1_lower @ latin1_caseless)"
    by (simp only: isalnum_def set_append Un_iff) blast
  with assms(1) latin1_not_ascii have "c \<in> set (ascii_upper @ ascii_lower @ ascii_digits)"
    by blast
  with lower_char_ascii_alnum show ?thesis
    by blast
qed

lemma slugify_ascii:
  assumes "is_ascii v"
  shows "set (slugify v) \<subseteq> set (ascii_lower @ ascii_digits @ ''-'')"
proof -
  let ?safe = "map (\<lambda>c. if isalnum c then lower_char c else CHR ''-'') (strip v)"
  have "set (strip v) \<subseteq> set v"
    unfolding strip_def by (rule set_strip_with)
  with assms have ascii: "(of_char c :: nat) < 128" if "c \<in> set (strip v)" for c
    using that by (auto simp: is_ascii_def list_all_iff)
  have "set ?safe \<subseteq> set (ascii_lower @ ascii_digits @ ''-'')"
  proof
    fix x
    assume "x \<in> set ?safe"
    then obtain c where c: "c \<in> set (strip v)"
      and x: "x = (if isalnum c then lower_char c else CHR ''-'')"
      by auto
    show "x \<in> set (ascii_lower @ ascii_digits @ ''-'')"
    proof (cases "isalnum c")
      case True
      with x lower_char_alnum_ascii [OF ascii [OF c]] show ?thesis
        by (simp only: set_append Un_iff if_True) blast
    next
      case False
      with x show ?thesis by simp
    qed
  qed
  then show ?thesis
    unfolding slugify_def Let_def
    using set_strip_with set_collapse_dashes by blast
qed

lemma slugify_trimmed:
  "\<not> py_in ''--'' (slugify v)
   \<and> (slugify v = [] \<or> (hd (slugify v) \<noteq> CHR ''-'' \<and> last (slugify v) \<noteq> CHR ''-''))"
proof (intro conjI)
  show "\<not> py_in ''--'' (slugify v)"
    unfolding slugify_def Let_def by (intro no_dashes_strip_with no_dashes_collapse)
  show "slugify v = [] \<or> (hd (slugify v) \<noteq> CHR ''-'' \<and> last (slugify v) \<noteq> CHR ''-'')"
    unfolding slugify_def Let_def
    using strip_with_ends [of "\<lambda>c. c = CHR ''-''"] by blast
qed

section \<open>Tier limit\<close>

text \<open>
  C3. The listing never has more items than its limit, and the limit is 500 exactly when
  the viewer exists and is an ADMIN or has plan PRO with subscription status ACTIVE; it is 25
  for every other viewer, the anonymous one included.
\<close>

theorem tier_limit:
  "length (items (list_visible_attendees w ev viewer company title state))
     \<le> limit (list_visible_attendees w ev viewer company title state)
   \<and> limit (list_visible_attendees w ev viewer company title state) =
       (if (\<exists>v. viewer = Some v \<and> (dget v ''role'' = PStr ''ADMIN''
               \<or> (dget v ''plan'' = PStr ''PRO''
                  \<and> dget v ''subscription_status'' = PStr ''ACTIVE'')))
        then 500 else 25)"
  by (cases viewer)
     (auto simp: list_visible_attendees_def Let_def attendee_limit_def dict_truthy_def
                 PRO_ATTENDEE_LIMIT_def FREE_ATTENDEE_LIMIT_def)

theorem tier_limit_witness:
  "limit (list_visible_attendees \<lparr>disk = None, writes = 0\<rparr> ''e''
       (Some [(''id'', PStr ''u''), (''plan'', PStr ''PRO''),
              (''subscription_status'', PStr ''CANCELED'')])
       None None None) = 25
   \<and> limit (list_visible_attendees \<lparr>disk = None, writes = 0\<rparr> ''e''
       (Some [(''id'', PStr ''u''), (''plan'', PStr ''PRO''),
              (''subscription_status'', PStr ''ACTIVE'')])
       None None None) = 500"
  using tier_limit [of "\<lparr>disk = None, writes = 0\<rparr>" "''e''"
       "Some [(''id'', PStr ''u''), (''plan'', PStr ''PRO''),
              (''subscription_status'', PStr ''CANCELED'')]"
       None None None]
     tier_limit [of "\<lparr>disk = None, writes = 0\<rparr>" "''e''"
       "Some [(''id'', PStr ''u''), (''plan'', PStr ''PRO''),
              (''subscription_status'', PStr ''ACTIVE'')]"
       None None None]
  by (simp add: dget_def)

section \<open>Private rows\<close>

text \<open>
  C1 (amended). For every event and every attendance row with visibility PRIVATE, a listing
  for a viewer who is not an ADMIN and who is anonymous or whose id differs from the row's
  user_id is the listing of the store without that row: the row is neither in items nor
  counted in total_visible.
\<close>

theorem private_rows_hidden:
  assumes "\<not> is_admin viewer"
  shows "list_visible_attendees
           (without_rows (\<lambda>r. dget r ''visibility'' = PStr ''PRIVATE''
               \<and> \<not> (dict_truthy viewer \<and> py_eq (dget (the viewer) ''id'') (dget r ''user_id''))) w)
           ev viewer company title state
         = list_visible_attendees w ev viewer company title state"
  by (rule hidden_rows_no_effect_listing) (use assms in \<open>auto simp: can_see_private\<close>)

theorem private_rows_hidden_witness:
  "\<not> is_admin (seed_user ''verified'')
   \<and> list_visible_attendees
       (without_rows (\<lambda>r. dget r ''visibility'' = PStr ''PRIVATE''
          \<and> \<not> (dict_truthy (seed_user ''verified'')
               \<and> py_eq (dget (the (seed_user ''verified'')) ''id'') (dget r ''user_id'')))
          private_world)
       ''event-a'' (seed_user ''verified'') None None None
     = list_visible_attendees private_world ''event-a'' (seed_user ''verified'') None None None
   \<and> private_row \<in> set (attendances (read_data private_world))
   \<and> total_visible (list_visible_attendees private_world ''event-a'' (seed_user ''verified'')
        None None None) = 1"
proof -
  have h: "\<not> is_admin (seed_user ''verified'')"
    by code_simp
  have a: "private_row \<in> set (attendances (read_data private_world))"
    by code_simp
  have b: "total_visible (list_visible_attendees private_world ''event-a''
             (seed_user ''verified'') None None None) = 1"
    by code_simp
  show ?thesis
    using h a b private_rows_hidden [OF h, of private_world "''event-a''" None None None]
    by (intro conjI) assumption+
qed

text \<open>
  An ADMIN viewer whose id differs from the row's user_id does receive a PRIVATE row, and it
  is counted.
\<close>

theorem private_row_admin_counterexample:
  "dget private_row ''visibility'' = PStr ''PRIVATE''
   \<and> private_row \<in> set (attendances (read_data private_world))
   \<and> \<not> py_eq (dget (the (seed_user ''admin'')) ''id'') (dget private_row ''user_id'')
   \<and> disclose (the (seed_user ''free'')) private_row
       \<in> set (items (list_visible_attendees private_world ''event-a'' (seed_user ''admin'')
                       None None None))
   \<and> total_visible (list_visible_attendees private_world ''event-a'' (seed_user ''admin'')
        None None None) = 2"
  by code_simp

section \<open>Verified-only rows\<close>

text \<open>
  C2. \<open>can_view_verified_only\<close> holds exactly when the viewer exists and is an ADMIN, or
  has a true \<open>verified_email_domain\<close>, or has plan PRO with subscription status ACTIVE; it
  is false for the anonymous viewer. When it fails, the listing is that of the store without
  the VERIFIED_ONLY rows. When it holds, every VERIFIED_ONLY row of the event that the other
  filters keep is among the kept rows, and its record is among the items when the row is one
  of the first \<open>limit\<close> kept rows.
\<close>

theorem verified_only_rows:
  "can_view_verified_only viewer =
     (\<exists>v. viewer = Some v \<and>
        (dget v ''role'' = PStr ''ADMIN'' \<or> truthy (dget v ''verified_email_domain'')
         \<or> (dget v ''plan'' = PStr ''PRO'' \<and> dget v ''subscription_status'' = PStr ''ACTIVE'')))
   \<and> (\<not> can_view_verified_only viewer \<longrightarrow>
        list_visible_attendees
          (without_rows (\<lambda>r. dget r ''visibility'' = PStr ''VERIFIED_ONLY'') w)
          ev viewer company title state
        = list_visible_attendees w ev viewer company title state)
   \<and> (can_view_verified_only viewer \<and> r \<in> set (event_rows w ev)
        \<and> dget r ''visibility'' = PStr ''VERIFIED_ONLY''
        \<and> passes_filters (users_by_id (users (read_data w)))
             (lower (strip (str_or_empty company))) (lower (strip (str_or_empty title))) state r
      \<longrightarrow> disclosed (users_by_id (users (read_data w))) r
            \<in> set (visible_attendees w ev viewer company title state)
          \<and> r \<in> set (kept_rows w ev viewer company title state)
          \<and> (r \<in> set (take (limit (list_visible_attendees w ev viewer company title state))
                          (kept_rows w ev viewer company title state))
             \<longrightarrow> disclosed (users_by_id (users (read_data w))) r
                   \<in> set (items (list_visible_attendees w ev viewer company title state))))"
proof (intro conjI impI)
  show "can_view_verified_only viewer =
     (\<exists>v. viewer = Some v \<and>
        (dget v ''role'' = PStr ''ADMIN'' \<or> truthy (dget v ''verified_email_domain'')
         \<or> (dget v ''plan'' = PStr ''PRO'' \<and> dget v ''subscription_status'' = PStr ''ACTIVE'')))"
    by (rule can_view_verified_only_iff)
next
  assume "\<not> can_view_verified_only viewer"
  then show "list_visible_attendees
          (without_rows (\<lambda>r. dget r ''visibility'' = PStr ''VERIFIED_ONLY'') w)
          ev viewer company title state
        = list_visible_attendees w ev viewer company title state"
    by (intro hidden_rows_no_effect_listing) (simp add: can_see_verified_only)
next
  assume a: "can_view_verified_only viewer \<and> r \<in> set (event_rows w ev)
        \<and> dget r ''visibility'' = PStr ''VERIFIED_ONLY''
        \<and> passes_filters (users_by_id (users (read_data w)))
             (lower (strip (str_or_empty company))) (lower (strip (str_or_empty title))) state r"
  then have "can_see viewer r"
    by (simp add: can_see_verified_only)
  with a show "disclosed (users_by_id (users (read_data w))) r
            \<in> set (visible_attendees w ev viewer company title state)"
    by (intro visible_row_disclosed) simp_all
  from a \<open>can_see viewer r\<close> show "r \<in> set (kept_rows w ev viewer company title state)"
    by (intro passing_row_kept) simp_all
  assume "r \<in> set (take (limit (list_visible_attendees w ev viewer company title state))
                          (kept_rows w ev viewer company title state))"
  then show "disclosed (users_by_id (users (read_data w))) r
                   \<in> set (items (list_visible_attendees w ev viewer company title state))"
    by (rule kept_row_in_items)
qed

theorem verified_only_rows_witness:
  "can_view_verified_only (seed_user ''verified'')
   \<and> \<not> can_view_verified_only None
   \<and> disclosed (users_by_id (users (read_data seed_world))) verified_row
       \<in> set (items (list_visible_attendees seed_world ''event-a'' (seed_user ''verified'')
                       None None None))
   \<and> list_visible_attendees
        (without_rows (\<lambda>r. dget r ''visibility'' = PStr ''VERIFIED_ONLY'') seed_world)
        ''event-a'' None None None None
      = list_visible_attendees seed_world ''event-a'' None None None None"
proof -
  have c: "can_view_verified_only (seed_user ''verified'')"
    by code_simp
  have n: "\<not> can_view_verified_only None"
    by code_simp
  have r: "verified_row \<in> set (event_rows seed_world ''event-a'')"
    by code_simp
  have v: "dget verified_row ''visibility'' = PStr ''VERIFIED_ONLY''"
    by code_simp
  have p: "passes_filters (users_by_id (users (read_data seed_world)))
             (lower (strip (str_or_empty None))) (lower (strip (str_or_empty None))) None
             verified_row"
    by code_simp
  have f: "verified_row
             \<in> set (take (limit (list_visible_attendees seed_world ''event-a''
                                  (seed_user ''verified'') None None None))
                      (kept_rows seed_world ''event-a'' (seed_user ''verified'') None None None))"
    by code_simp
  show ?thesis
    using c n r v p f
      verified_only_rows [of "seed_user ''verified''" seed_world "''event-a''" None None None
        verified_row]
      verified_only_rows [of None seed_world "''event-a''" None None None verified_row]
    by blast
qed

section \<open>Rows with an unknown visibility\<close>

text \<open>
  C10 (amended). A row whose visibility is none of PUBLIC, VERIFIED_ONLY and PRIVATE (missing
  or misspelled) passes the disclosure decision for ADMIN viewers only: for every other
  viewer, the row's own user included, the listing is that of the store without such rows,
  while an ADMIN viewer receives the row when its user resolves, the state, company and title
  filters keep it, and it is one of the first \<open>limit\<close> kept rows.
\<close>

theorem unknown_visibility_rows:
  "(dget r ''visibility'' \<notin> {PStr ''PUBLIC'', PStr ''VERIFIED_ONLY'', PStr ''PRIVATE''}
      \<longrightarrow> can_see viewer r = is_admin viewer)
   \<and> (\<not> is_admin viewer \<longrightarrow>
        list_visible_attendees
          (without_rows (\<lambda>r. dget r ''visibility''
                 \<notin> {PStr ''PUBLIC'', PStr ''VERIFIED_ONLY'', PStr ''PRIVATE''}) w)
          ev viewer company title state
        = list_visible_attendees w ev viewer company title state)
   \<and> (is_admin viewer \<and> r \<in> set (event_rows w ev)
        \<and> passes_filters (users_by_id (users (read_data w)))
             (lower (strip (str_or_empty company))) (lower (strip (str_or_empty title))) state r
      \<longrightarrow> disclosed (users_by_id (users (read_data w))) r
            \<in> set (visible_attendees w ev viewer company title state)
          \<and> r \<in> set (kept_rows w ev viewer company title state)
          \<and> (r \<in> set (take (limit (list_visible_attendees w ev viewer company title state))
                          (kept_rows w ev viewer company title state))
             \<longrightarrow> disclosed (users_by_id (users (read_data w))) r
                   \<in> set (items (list_visible_attendees w ev viewer company title state))))"
proof (intro conjI impI)
  assume "dget r ''visibility'' \<notin> {PStr ''PUBLIC'', PStr ''VERIFIED_ONLY'', PStr ''PRIVATE''}"
  then show "can_see viewer r = is_admin viewer"
    by (rule can_see_unknown)
next
  assume "\<not> is_admin viewer"
  then show "list_visible_attendees
          (without_rows (\<lambda>r. dget r ''visibility''
                 \<notin> {PStr ''PUBLIC'', PStr ''VERIFIED_ONLY'', PStr ''PRIVATE''}) w)
          ev viewer company title state
        = list_visible_attendees w ev viewer company title state"
    by (intro hidden_rows_no_effect_listing) (simp add: can_see_unknown)
next
  assume a: "is_admin viewer \<and> r \<in> set (event_rows w ev)
        \<and> passes_filters (users_by_id (users (read_data w)))
             (lower (strip (str_or_empty company))) (lower (strip (str_or_empty title))) state r"
  then have "can_see viewer r"
    by (simp add: can_see_admin)
  with a show "disclosed (users_by_id (users (read_data w))) r
            \<in> set (visible_attendees w ev viewer company title state)"
    by (intro visible_row_disclosed) simp_all
  from a \<open>can_see viewer r\<close> show "r \<in> set (kept_rows w ev viewer company title state)"
    by (intro passing_row_kept) simp_all
  assume "r \<in> set (take (limit (list_visible_attendees w ev viewer company title state))
                          (kept_rows w ev viewer company title state))"
  then show "disclosed (users_by_id (users (read_data w))) r
                   \<in> set (items (list_visible_attendees w ev viewer company title state))"
    by (rule kept_row_in_items)
qed

theorem unknown_visibility_rows_witness:
  "dget odd_row ''visibility'' \<notin> {PStr ''PUBLIC'', PStr ''VERIFIED_ONLY'', PStr ''PRIVATE''}
   \<and> \<not> can_see (seed_user ''free'') odd_row
   \<and> can_see (seed_user ''admin'') odd_row
   \<and> list_visible_attendees
        (without_rows (\<lambda>r. dget r ''visibility''
               \<notin> {PStr ''PUBLIC'', PStr ''VERIFIED_ONLY'', PStr ''PRIVATE''}) odd_world)
        ''event-a'' (seed_user ''free'') None None None
      = list_visible_attendees odd_world ''event-a'' (seed_user ''free'') None None None
   \<and> total_visible (list_visible_attendees odd_world ''event-a'' (seed_user ''free'')
        None None None) = 0
   \<and> disclosed (users_by_id (users (read_data odd_world))) odd_row
       \<in> set (items (list_visible_attendees odd_world ''event-a'' (seed_user ''admin'')
                       None None None))"
proof -
  have u: "dget odd_row ''visibility''
             \<notin> {PStr ''PUBLIC'', PStr ''VERIFIED_ONLY'', PStr ''PRIVATE''}"
    by code_simp
  have nf: "\<not> is_admin (seed_user ''free'')"
    by code_simp
  have ad: "is_admin (seed_user ''admin'')"
    by code_simp
  have r: "odd_row \<in> set (event_rows odd_world ''event-a'')"
    by code_simp
  have p: "passes_filters (users_by_id (users (read_data odd_world)))
             (lower (strip (str_or_empty None))) (lower (strip (str_or_empty None))) None odd_row"
    by code_simp
  have t: "total_visible (list_visible_attendees odd_world ''event-a'' (seed_user ''free'')
        None None None) = 0"
    by code_simp
  have f: "odd_row
             \<in> set (take (limit (list_visible_attendees odd_world ''event-a''
                                  (seed_user ''admin'') None None None))
                      (kept_rows odd_world ''event-a'' (seed_user ''admin'') None None None))"
    by code_simp
  show ?thesis
    using u nf ad r p t f
      unknown_visibility_rows [of odd_row "seed_user ''free''" odd_world "''event-a''"
        None None None]
      unknown_visibility_rows [of odd_row "seed_user ''admin''" odd_world "''event-a''"
        None None None]
    by blast
qed

text \<open>
  An ADMIN viewer does not receive a row with an unknown visibility whose user no user record
  resolves: the row is dropped before the disclosure decision.
\<close>

theorem unknown_visibility_admin_counterexample:
  "dget ghost_row ''visibility'' = PStr ''public''
   \<and> ghost_row \<in> set (event_rows ghost_world ''event-a'')
   \<and> dget (the (seed_user ''admin'')) ''role'' = PStr ''ADMIN''
   \<and> items (list_visible_attendees ghost_world ''event-a'' (seed_user ''admin'')
              None None None) = []
   \<and> total_visible (list_visible_attendees ghost_world ''event-a'' (seed_user ''admin'')
        None None None) = 0"
  by code_simp

section \<open>Order and truncation\<close>

text \<open>
  C4 (amended). The items are the first min(limit, total_visible) records of the visible list, which
  discloses the kept rows in descending order of the key (updated_at, user_id), compared as a
  pair of strings; total_visible is the number of rows of the event that survive the state,
  user, disclosure and company/title filters. When every row of the event has its
  \<open>updated_at\<close> and \<open>user_id\<close>, the key read off the returned records descends as well.
\<close>

theorem listing_order:
  "items (list_visible_attendees w ev viewer company title state)
     = take (min (limit (list_visible_attendees w ev viewer company title state))
                 (total_visible (list_visible_attendees w ev viewer company title state)))
         (map (disclosed (users_by_id (users (read_data w))))
            (kept_rows w ev viewer company title state))
   \<and> total_visible (list_visible_attendees w ev viewer company title state)
     = length (filter (\<lambda>r. passes_filters (users_by_id (users (read_data w)))
                             (lower (strip (str_or_empty company)))
                             (lower (strip (str_or_empty title))) state r
                          \<and> can_see viewer r)
                (event_rows w ev))
   \<and> sorted_wrt (\<lambda>a b. row_key a \<ge> row_key b) (kept_rows w ev viewer company title state)
   \<and> ((\<forall>r \<in> set (event_rows w ev).
          map_of r ''updated_at'' \<noteq> None \<and> map_of r ''user_id'' \<noteq> None)
      \<longrightarrow> sorted_wrt (\<lambda>a b. item_key a \<ge> item_key b)
            (items (list_visible_attendees w ev viewer company title state)))"
proof (intro conjI impI)
  show "items (list_visible_attendees w ev viewer company title state)
     = take (min (limit (list_visible_attendees w ev viewer company title state))
                 (total_visible (list_visible_attendees w ev viewer company title state)))
         (map (disclosed (users_by_id (users (read_data w))))
            (kept_rows w ev viewer company title state))"
    using take_min_length [of "attendee_limit viewer"
        "map (disclosed (users_by_id (users (read_data w))))
           (kept_rows w ev viewer company title state)"]
    by (simp add: list_visible_attendees_def Let_def visible_attendees_kept)
next
  show "total_visible (list_visible_attendees w ev viewer company title state)
     = length (filter (\<lambda>r. passes_filters (users_by_id (users (read_data w)))
                             (lower (strip (str_or_empty company)))
                             (lower (strip (str_or_empty title))) state r
                          \<and> can_see viewer r)
                (event_rows w ev))"
    by (simp add: list_visible_attendees_def Let_def visible_attendees_kept length_kept_rows)
next
  show "sorted_wrt (\<lambda>a b. row_key a \<ge> row_key b) (kept_rows w ev viewer company title state)"
    by (rule kept_rows_sorted)
next
  assume wf: "\<forall>r \<in> set (event_rows w ev).
          map_of r ''updated_at'' \<noteq> None \<and> map_of r ''user_id'' \<noteq> None"
  let ?us = "users_by_id (users (read_data w))"
  let ?kept = "kept_rows w ev viewer company title state"
  have key: "item_key (disclosed ?us r) = row_key r" if "r \<in> set ?kept" for r
    using set_kept_rows [OF that] wf by (intro item_key_disclosed) auto
  have "sorted_wrt (\<lambda>a b. item_key (disclosed ?us a) \<ge> item_key (disclosed ?us b)) ?kept"
  proof (rule sorted_wrt_mono_rel [OF _ kept_rows_sorted])
    fix x y
    assume "x \<in> set ?kept" "y \<in> set ?kept" "row_key y \<le> row_key x"
    then show "item_key (disclosed ?us y) \<le> item_key (disclosed ?us x)"
      by (simp add: key)
  qed
  then have "sorted_wrt (\<lambda>a b. item_key a \<ge> item_key b) (map (disclosed ?us) ?kept)"
    by (simp add: sorted_wrt_map)
  then show "sorted_wrt (\<lambda>a b. item_key a \<ge> item_key b)
            (items (list_visible_attendees w ev viewer company title state))"
    by (simp add: list_visible_attendees_def Let_def visible_attendees_kept sorted_wrt_take)
qed

theorem listing_order_witness:
  "list_all (\<lambda>r. map_of r ''updated_at'' \<noteq> None \<and> map_of r ''user_id'' \<noteq> None)
     (event_rows seed_world ''event-a'')
   \<and> sorted_wrt (\<lambda>a b. item_key a \<ge> item_key b)
        (items (list_visible_attendees seed_world ''event-a'' (seed_user ''verified'')
                  None None None))
   \<and> length (items (list_visible_attendees seed_world ''event-a'' (seed_user ''verified'')
                  None None None)) = 2"
proof -
  have h: "\<forall>r \<in> set (event_rows seed_world ''event-a'').
       map_of r ''updated_at'' \<noteq> None \<and> map_of r ''user_id'' \<noteq> None"
    by code_simp
  have l: "length (items (list_visible_attendees seed_world ''event-a'' (seed_user ''verified'')
                  None None None)) = 2"
    by code_simp
  have "(\<forall>r \<in> set (event_rows seed_world ''event-a'').
            map_of r ''updated_at'' \<noteq> None \<and> map_of r ''user_id'' \<noteq> None)
        \<longrightarrow> sorted_wrt (\<lambda>a b. item_key a \<ge> item_key b)
              (items (list_visible_attendees seed_world ''event-a'' (seed_user ''verified'')
                        None None None))"
    using listing_order [of seed_world "''event-a''" "seed_user ''verified''" None None None]
    by (elim conjE)
  then have "sorted_wrt (\<lambda>a b. item_key a \<ge> item_key b)
              (items (list_visible_attendees seed_world ''event-a'' (seed_user ''verified'')
                        None None None))"
    using h by (rule mp)
  moreover have "list_all (\<lambda>r. map_of r ''updated_at'' \<noteq> None \<and> map_of r ''user_id'' \<noteq> None)
     (event_rows seed_world ''event-a'')"
    by code_simp
  ultimately show ?thesis
    using l by (intro conjI)
qed

text \<open>
  A row stored without \<open>updated_at\<close> is ranked by the empty string and returned with
  \<open>None\<close>: the key read off the returned records then ascends.
\<close>

theorem listing_order_counterexample:
  "map_of undated_row ''updated_at'' = None
   \<and> undated_row \<in> set (event_rows undated_world ''event-a'')
   \<and> length (items (list_visible_attendees undated_world ''event-a'' None None None None)) = 2
   \<and> dget (items (list_visible_attendees undated_world ''event-a'' None None None None) ! 1)
        ''updated_at'' = PNone
   \<and> \<not> item_key (items (list_visible_attendees undated_world ''event-a'' None None None None) ! 0)
        \<ge> item_key (items (list_visible_attendees undated_world ''event-a'' None None None None) ! 1)"
  by code_simp

section \<open>Company and title filters\<close>

text \<open>
  C5. With company and title filters the visible list is the visible list of the same viewer
  without them, restricted to the records whose company and title contain the lowercased,
  stripped filter text (compared with the lowercased field). So the items under the filters
  are among the records visible without them, total_visible does not grow, and every item
  discloses a row of the event that passes the disclosure decision.
\<close>

theorem filters_only_narrow:
  "visible_attendees w ev viewer company title state
     = filter (\<lambda>it. text_matches (lower (strip (str_or_empty company))) (dget it ''company'')
                   \<and> text_matches (lower (strip (str_or_empty title))) (dget it ''title''))
         (visible_attendees w ev viewer None None state)
   \<and> set (items (list_visible_attendees w ev viewer company title state))
       \<subseteq> set (visible_attendees w ev viewer None None state)
   \<and> total_visible (list_visible_attendees w ev viewer company title state)
       \<le> total_visible (list_visible_attendees w ev viewer None None state)
   \<and> (\<forall>it \<in> set (items (list_visible_attendees w ev viewer company title state)).
         \<exists>r \<in> set (event_rows w ev).
           can_see viewer r \<and> it = disclosed (users_by_id (users (read_data w))) r)"
proof (intro conjI ballI)
  show f: "visible_attendees w ev viewer company title state
     = filter (\<lambda>it. text_matches (lower (strip (str_or_empty company))) (dget it ''company'')
                   \<and> text_matches (lower (strip (str_or_empty title))) (dget it ''title''))
         (visible_attendees w ev viewer None None state)"
    by (rule visible_attendees_filtered)
  have sub: "set (items (list_visible_attendees w ev viewer company title state))
               \<subseteq> set (visible_attendees w ev viewer company title state)"
    by (simp add: list_visible_attendees_def Let_def set_take_subset)
  also have "\<dots> \<subseteq> set (visible_attendees w ev viewer None None state)"
    by (subst f) simp
  finally show "set (items (list_visible_attendees w ev viewer company title state))
       \<subseteq> set (visible_attendees w ev viewer None None state)" .
  show "total_visible (list_visible_attendees w ev viewer company title state)
       \<le> total_visible (list_visible_attendees w ev viewer None None state)"
    unfolding list_visible_attendees_def Let_def listing.simps
    by (subst f) (rule length_filter_le)
  fix it
  assume "it \<in> set (items (list_visible_attendees w ev viewer company title state))"
  with sub have "it \<in> set (visible_attendees w ev viewer company title state)"
    by blast
  then show "\<exists>r \<in> set (event_rows w ev).
           can_see viewer r \<and> it = disclosed (users_by_id (users (read_data w))) r"
    by (rule visible_item_origin)
qed

theorem filters_only_narrow_witness:
  "items (list_visible_attendees seed_world ''event-a'' (seed_user ''verified'')
            (Some '' STRI '') None None)
     = [disclosed (users_by_id (users (read_data seed_world))) verified_row]
   \<and> set (items (list_visible_attendees seed_world ''event-a'' (seed_user ''verified'')
                 (Some '' STRI '') None None))
       \<subseteq> set (visible_attendees seed_world ''event-a'' (seed_user ''verified'') None None None)
   \<and> total_visible (list_visible_attendees seed_world ''event-a'' (seed_user ''verified'')
        None None None) = 2"
proof -
  have a: "items (list_visible_attendees seed_world ''event-a'' (seed_user ''verified'')
            (Some '' STRI '') None None)
     = [disclosed (users_by_id (users (read_data seed_world))) verified_row]"
    by code_simp
  have b: "total_visible (list_visible_attendees seed_world ''event-a'' (seed_user ''verified'')
        None None None) = 2"
    by code_simp
  have "set (items (list_visible_attendees seed_world ''event-a'' (seed_user ''verified'')
                 (Some '' STRI '') None None))
       \<subseteq> set (visible_attendees seed_world ''event-a'' (seed_user ''verified'') None None None)"
    using filters_only_narrow [of seed_world "''event-a''" "seed_user ''verified''"
        "Some '' STRI ''" None None]
    by (elim conjE)
  with a b show ?thesis
    by (intro conjI)
qed

section \<open>Failed operations\<close>

text \<open>
  C6. When \<open>create_event\<close>, \<open>update_event\<close>, \<open>delete_event\<close> or \<open>upsert_attendance\<close>
  fails, the world after the call is the world before it: the file is the same and no
  snapshot write was made.
\<close>

theorem failed_operations_leave_store:
  "(fst (create_event payload w) = Inl e \<longrightarrow> snd (create_event payload w) = w)
   \<and> (fst (update_event slug payload w) = Inl e \<longrightarrow> snd (update_event slug payload w) = w)
   \<and> (fst (delete_event slug w) = Inl e \<longrightarrow> snd (delete_event slug w) = w)
   \<and> (fst (upsert_attendance ev uid st vis now w) = Inl e
        \<longrightarrow> snd (upsert_attendance ev uid st vis now w) = w)"
proof (intro conjI)
  show "fst (create_event payload w) = Inl e \<longrightarrow> snd (create_event payload w) = w"
    by (simp add: create_event_def Let_def)
  show "fst (update_event slug payload w) = Inl e \<longrightarrow> snd (update_event slug payload w) = w"
    by (simp add: update_event_def Let_def split: option.splits sum.splits)
  show "fst (delete_event slug w) = Inl e \<longrightarrow> snd (delete_event slug w) = w"
    by (simp add: delete_event_def Let_def)
  show "fst (upsert_attendance ev uid st vis now w) = Inl e
        \<longrightarrow> snd (upsert_attendance ev uid st vis now w) = w"
    by (simp add: upsert_attendance_def Let_def)
qed

theorem failed_operations_leave_store_witness:
  "fst (create_event [(''slug'', PStr ''Event A''), (''name'', PStr ''Again'')] seed_world)
     = Inl (ValueError ''Event slug already exists'')
   \<and> snd (create_event [(''slug'', PStr ''Event A''), (''name'', PStr ''Again'')] seed_world)
     = seed_world
   \<and> fst (update_event ''nope'' [] seed_world) = Inl (ValueError ''Event not found'')
   \<and> snd (update_event ''nope'' [] seed_world) = seed_world
   \<and> fst (delete_event ''nope'' seed_world) = Inl (ValueError ''Event not found'')
   \<and> snd (delete_event ''nope'' seed_world) = seed_world
   \<and> fst (upsert_attendance ''event-a'' ''free'' ''ATTENDING'' ''SECRET'' ''t'' seed_world)
     = Inl (ValueError ''Invalid attendance visibility'')
   \<and> snd (upsert_attendance ''event-a'' ''free'' ''ATTENDING'' ''SECRET'' ''t'' seed_world)
     = seed_world"
proof -
  have c: "fst (create_event [(''slug'', PStr ''Event A''), (''name'', PStr ''Again'')]
             seed_world) = Inl (ValueError ''Event slug already exists'')"
    by code_simp
  have u: "fst (update_event ''nope'' [] seed_world) = Inl (ValueError ''Event not found'')"
    by code_simp
  have d: "fst (delete_event ''nope'' seed_world) = Inl (ValueError ''Event not found'')"
    by code_simp
  have a: "fst (upsert_attendance ''event-a'' ''free'' ''ATTENDING'' ''SECRET'' ''t'' seed_world)
             = Inl (ValueError ''Invalid attendance visibility'')"
    by code_simp
  note t = failed_operations_leave_store
  have "snd (create_event [(''slug'', PStr ''Event A''), (''name'', PStr ''Again'')] seed_world)
          = seed_world"
    using c t [where payload = "[(''slug'', PStr ''Event A''), (''name'', PStr ''Again'')]"
                 and w = seed_world and e = "ValueError ''Event slug already exists''"]
    by blast
  moreover have "snd (update_event ''nope'' [] seed_world) = seed_world"
    using u t [where slug = "''nope''" and payload = "[]" and w = seed_world
                 and e = "ValueError ''Event not found''"]
    by blast
  moreover have "snd (delete_event ''nope'' seed_world) = seed_world"
    using d t [where slug = "''nope''" and w = seed_world
                 and e = "ValueError ''Event not found''"]
    by blast
  moreover have "snd (upsert_attendance ''event-a'' ''free'' ''ATTENDING'' ''SECRET'' ''t''
                   seed_world) = seed_world"
    using a t [where ev = "''event-a''" and uid = "''free''" and st = "''ATTENDING''"
                 and vis = "''SECRET''" and now = "''t''" and w = seed_world
                 and e = "ValueError ''Invalid attendance visibility''"]
    by blast
  ultimately show ?thesis
    using c u d a by (intro conjI)
qed

section \<open>Repeated upsert\<close>

text \<open>
  C7. After a successful \<open>upsert_attendance\<close>, a second call with the same event, user,
  state and visibility succeeds and only sets \<open>updated_at\<close> of the row of that pair: every
  other field of every attendance row is unchanged, and so are the number of rows of the
  event and overall.
\<close>

theorem upsert_twice:
  assumes "upsert_attendance ev uid st vis now1 w = (Inr r1, w1)"
  shows "fst (upsert_attendance ev uid st vis now2 w1)
           = Inr (dset ''updated_at'' (PStr now2) r1)
    \<and> attendances (read_data (snd (upsert_attendance ev uid st vis now2 w1)))
        = update_first (same_pair ev uid) (dset ''updated_at'' (PStr now2))
            (attendances (read_data w1))
    \<and> list_all2 (\<lambda>a b. \<forall>k. k \<noteq> ''updated_at'' \<longrightarrow> map_of b k = map_of a k)
        (attendances (read_data w1))
        (attendances (read_data (snd (upsert_attendance ev uid st vis now2 w1))))
    \<and> length (attendances (read_data (snd (upsert_attendance ev uid st vis now2 w1))))
        = length (attendances (read_data w1))
    \<and> length (filter (refers_to ev)
                (attendances (read_data (snd (upsert_attendance ev uid st vis now2 w1)))))
        = length (filter (refers_to ev) (attendances (read_data w1)))
    \<and> events (read_data (snd (upsert_attendance ev uid st vis now2 w1)))
        = events (read_data w1)
    \<and> users (read_data (snd (upsert_attendance ev uid st vis now2 w1)))
        = users (read_data w1)"
proof -
  let ?P = "same_pair ev uid"
  let ?touch = "dset ''updated_at'' (PStr now2)"
  let ?w2 = "snd (upsert_attendance ev uid st vis now2 w1)"
  note after = upsert_attendance_after [OF assms]
  from after have found: "find ?P (attendances (read_data w1)) = Some r1"
    by simp
  from after have same: "stamped st vis now2 r1 = ?touch r1"
    by (intro restamp) simp_all
  have second: "upsert_attendance ev uid st vis now2 w1 =
      (Inr (stamped st vis now2 r1),
       write_data ((read_data w1)\<lparr>attendances :=
          update_first ?P (stamped st vis now2) (attendances (read_data w1))\<rparr>) w1)"
    using after by (simp add: upsert_attendance_cases)
  have rows: "attendances (read_data ?w2) = update_first ?P ?touch (attendances (read_data w1))"
    unfolding second
    using update_first_cong [of ?P "attendances (read_data w1)" r1 "stamped st vis now2" ?touch,
        OF found same]
    by simp
  have "fst (upsert_attendance ev uid st vis now2 w1) = Inr (?touch r1)"
    unfolding second using same by simp
  moreover note rows
  moreover have "list_all2 (\<lambda>a b. \<forall>k. k \<noteq> ''updated_at'' \<longrightarrow> map_of b k = map_of a k)
        (attendances (read_data w1)) (attendances (read_data ?w2))"
    unfolding rows by (rule list_all2_update_first) (simp_all add: map_of_dset)
  moreover have "length (attendances (read_data ?w2)) = length (attendances (read_data w1))"
    unfolding rows by simp
  moreover have "length (filter (refers_to ev) (attendances (read_data ?w2)))
        = length (filter (refers_to ev) (attendances (read_data w1)))"
    unfolding rows by (rule filter_length_update_first) (simp add: refers_to_def dget_dset)
  moreover have "events (read_data ?w2) = events (read_data w1)"
    unfolding second by simp
  moreover have "users (read_data ?w2) = users (read_data w1)"
    unfolding second by simp
  ultimately show ?thesis
    by (intro conjI)
qed

theorem upsert_twice_witness:
  "upsert_attendance ''event-a'' ''admin'' ''ATTENDING'' ''PUBLIC'' ''2026-02-09T08:00:00Z''
     seed_world
     = (Inr (created_row ''event-a'' ''admin'' ''ATTENDING'' ''PUBLIC'' ''2026-02-09T08:00:00Z''),
        once_world)
   \<and> length (attendances (read_data once_world)) = 3
   \<and> length (attendances (read_data (snd (upsert_attendance ''event-a'' ''admin'' ''ATTENDING''
         ''PUBLIC'' ''2026-02-09T09:30:00Z'' once_world)))) = 3
   \<and> fst (upsert_attendance ''event-a'' ''admin'' ''ATTENDING'' ''PUBLIC''
         ''2026-02-09T09:30:00Z'' once_world)
       = Inr (created_row ''event-a'' ''admin'' ''ATTENDING'' ''PUBLIC'' ''2026-02-09T09:30:00Z'')"
proof -
  have first: "upsert_attendance ''event-a'' ''admin'' ''ATTENDING'' ''PUBLIC''
       ''2026-02-09T08:00:00Z'' seed_world
     = (Inr (created_row ''event-a'' ''admin'' ''ATTENDING'' ''PUBLIC'' ''2026-02-09T08:00:00Z''),
        once_world)"
    by code_simp
  have three: "length (attendances (read_data once_world)) = 3"
    by code_simp
  have touch: "dset ''updated_at'' (PStr ''2026-02-09T09:30:00Z'')
       (created_row ''event-a'' ''admin'' ''ATTENDING'' ''PUBLIC'' ''2026-02-09T08:00:00Z'')
     = created_row ''event-a'' ''admin'' ''ATTENDING'' ''PUBLIC'' ''2026-02-09T09:30:00Z''"
    by code_simp
  note t = upsert_twice [OF first, of "''2026-02-09T09:30:00Z''"]
  from t have "length (attendances (read_data (snd (upsert_attendance ''event-a'' ''admin''
         ''ATTENDING'' ''PUBLIC'' ''2026-02-09T09:30:00Z'' once_world))))
       = length (attendances (read_data once_world))"
    by (elim conjE)
  moreover from t have "fst (upsert_attendance ''event-a'' ''admin'' ''ATTENDING'' ''PUBLIC''
         ''2026-02-09T09:30:00Z'' once_world)
       = Inr (dset ''updated_at'' (PStr ''2026-02-09T09:30:00Z'')
           (created_row ''event-a'' ''admin'' ''ATTENDING'' ''PUBLIC'' ''2026-02-09T08:00:00Z''))"
    by (elim conjE)
  ultimately show ?thesis
    using first three touch by simp
qed

section \<open>Slug rename\<close>

text \<open>
  C8. When \<open>update_event\<close> succeeds and renames the slug from A to B, the attendance rows
  after the call correspond one to one to those before it: a row whose \<open>event_slug\<close> was A
  has \<open>event_slug\<close> B and all its other fields as before, every other row is unchanged, so
  the number of rows is the same; the renamed event and the rewritten rows are in the store
  after exactly one snapshot write.
\<close>

theorem rename_cascade:
  assumes "update_event slug payload w = (Inr ev', w')"
    and "new_slug_of slug payload \<noteq> slug"
  shows "list_all2 (\<lambda>a b. if dget a ''event_slug'' = PStr slug
                     then dget b ''event_slug'' = PStr (new_slug_of slug payload)
                        \<and> (\<forall>k. k \<noteq> ''event_slug'' \<longrightarrow> map_of b k = map_of a k)
                     else b = a)
           (attendances (read_data w)) (attendances (read_data w'))
    \<and> length (attendances (read_data w')) = length (attendances (read_data w))
    \<and> writes w' = Suc (writes w)
    \<and> ev' \<in> set (events (read_data w'))
    \<and> dget ev' ''slug'' = PStr (new_slug_of slug payload)"
proof -
  note r = update_event_renames [OF assms]
  have "list_all2 (\<lambda>a b. if dget a ''event_slug'' = PStr slug
                     then dget b ''event_slug'' = PStr (new_slug_of slug payload)
                        \<and> (\<forall>k. k \<noteq> ''event_slug'' \<longrightarrow> map_of b k = map_of a k)
                     else b = a)
           (attendances (read_data w)) (attendances (read_data w'))"
    unfolding r(1) by (rule rename_rows_rowwise)
  moreover have "length (attendances (read_data w')) = length (attendances (read_data w))"
    unfolding r(1) by (simp add: rename_rows_def)
  ultimately show ?thesis
    using r(2-4) by (intro conjI)
qed

theorem rename_cascade_witness:
  "update_event ''event-a'' [(''slug'', PStr ''Event B''), (''name'', PStr ''Event B'')]
     seed_world = (Inr (the (find (slug_is ''event-b'') (events (read_data renamed_world)))),
                   renamed_world)
   \<and> new_slug_of ''event-a'' [(''slug'', PStr ''Event B''), (''name'', PStr ''Event B'')]
       = ''event-b''
   \<and> length (filter (refers_to ''event-a'') (attendances (read_data seed_world))) = 2
   \<and> length (filter (refers_to ''event-b'') (attendances (read_data renamed_world))) = 2
   \<and> length (attendances (read_data renamed_world)) = length (attendances (read_data seed_world))
   \<and> writes renamed_world = Suc (writes seed_world)"
proof -
  have u: "update_event ''event-a'' [(''slug'', PStr ''Event B''), (''name'', PStr ''Event B'')]
     seed_world = (Inr (the (find (slug_is ''event-b'') (events (read_data renamed_world)))),
                   renamed_world)"
    by code_simp
  have n: "new_slug_of ''event-a'' [(''slug'', PStr ''Event B''), (''name'', PStr ''Event B'')]
       = ''event-b''"
    by code_simp
  then have d: "new_slug_of ''event-a'' [(''slug'', PStr ''Event B''), (''name'', PStr ''Event B'')]
       \<noteq> ''event-a''"
    by simp
  have a: "length (filter (refers_to ''event-a'') (attendances (read_data seed_world))) = 2"
    by code_simp
  have b: "length (filter (refers_to ''event-b'') (attendances (read_data renamed_world))) = 2"
    by code_simp
  note t = rename_cascade [OF u d]
  from t have "length (attendances (read_data renamed_world))
                 = length (attendances (read_data seed_world))"
    by (elim conjE)
  moreover from t have "writes renamed_world = Suc (writes seed_world)"
    by (elim conjE)
  ultimately show ?thesis
    using u n a b by (intro conjI)
qed

section \<open>Creating an event twice\<close>

text \<open>
  C9 (amended). Starting from a store with no event whose slug is \<open>foo-bar\<close>,
  \<open>create_event\<close> with payload \<open>{slug: "", name: "Foo Bar"}\<close> succeeds and assigns the slug
  \<open>foo-bar\<close>; a following \<open>create_event\<close> with payload \<open>{name: "Foo Bar"}\<close> fails because
  that slug already exists, and leaves the store as the first call left it. The normalized
  slug of an ASCII text consists of the letters a-z, digits and \<open>-\<close>; a normalized slug has no
  two \<open>-\<close> in a row and neither starts nor ends with \<open>-\<close>.
\<close>

theorem create_foo_bar_twice:
  assumes "\<not> list_ex (slug_is ''foo-bar'') (events (read_data w))"
  shows "create_event [(''slug'', PStr ''''), (''name'', PStr ''Foo Bar'')] w
           = (Inr foo_bar_event,
              write_data ((read_data w)\<lparr>events := events (read_data w) @ [foo_bar_event]\<rparr>) w)
    \<and> dget foo_bar_event ''slug'' = PStr ''foo-bar''
    \<and> create_event [(''name'', PStr ''Foo Bar'')]
          (write_data ((read_data w)\<lparr>events := events (read_data w) @ [foo_bar_event]\<rparr>) w)
        = (Inl (ValueError ''Event slug already exists''),
           write_data ((read_data w)\<lparr>events := events (read_data w) @ [foo_bar_event]\<rparr>) w)
    \<and> (is_ascii v \<longrightarrow> set (slugify v) \<subseteq> set (ascii_lower @ ascii_digits @ ''-''))
    \<and> \<not> py_in ''--'' (slugify v)
    \<and> (slugify v = [] \<or> (hd (slugify v) \<noteq> CHR ''-'' \<and> last (slugify v) \<noteq> CHR ''-''))"
proof -
  have s1: "payload_slug [(''slug'', PStr ''''), (''name'', PStr ''Foo Bar'')] = ''foo-bar''"
    by code_simp
  have s2: "payload_slug [(''name'', PStr ''Foo Bar'')] = ''foo-bar''"
    by code_simp
  have e: "new_event ''foo-bar'' [(''slug'', PStr ''''), (''name'', PStr ''Foo Bar'')]
            = foo_bar_event"
    by code_simp
  have n: "truthy (dget foo_bar_event ''name'')"
    by code_simp
  have g: "dget foo_bar_event ''slug'' = PStr ''foo-bar''"
    by code_simp
  have i: "slug_is ''foo-bar'' foo_bar_event"
    by code_simp
  have "create_event [(''slug'', PStr ''''), (''name'', PStr ''Foo Bar'')] w
           = (Inr foo_bar_event,
              write_data ((read_data w)\<lparr>events := events (read_data w) @ [foo_bar_event]\<rparr>) w)"
    unfolding create_event_cases s1 e using assms n by simp
  moreover have "create_event [(''name'', PStr ''Foo Bar'')]
          (write_data ((read_data w)\<lparr>events := events (read_data w) @ [foo_bar_event]\<rparr>) w)
        = (Inl (ValueError ''Event slug already exists''),
           write_data ((read_data w)\<lparr>events := events (read_data w) @ [foo_bar_event]\<rparr>) w)"
    unfolding create_event_cases s2 using i by (simp add: list_ex_iff)
  ultimately show ?thesis
    using g slugify_ascii [of v] slugify_trimmed [of v] by (elim conjE, intro conjI impI)
qed

theorem create_foo_bar_twice_witness:
  "\<not> list_ex (slug_is ''foo-bar'') (events (read_data seed_world))
   \<and> fst (create_event [(''slug'', PStr ''''), (''name'', PStr ''Foo Bar'')] seed_world)
       = Inr foo_bar_event
   \<and> fst (create_event [(''name'', PStr ''Foo Bar'')]
            (snd (create_event [(''slug'', PStr ''''), (''name'', PStr ''Foo Bar'')] seed_world)))
       = Inl (ValueError ''Event slug already exists'')
   \<and> is_ascii ''Foo Bar''
   \<and> set (slugify ''Foo Bar'') \<subseteq> set (ascii_lower @ ascii_digits @ ''-'')"
proof -
  have h: "\<not> list_ex (slug_is ''foo-bar'') (events (read_data seed_world))"
    by code_simp
  have ia: "is_ascii ''Foo Bar''"
    by code_simp
  note t = create_foo_bar_twice [OF h, where v = "''Foo Bar''"]
  from t have "is_ascii ''Foo Bar''
      \<longrightarrow> set (slugify ''Foo Bar'') \<subseteq> set (ascii_lower @ ascii_digits @ ''-'')"
    by (elim conjE)
  then have sl: "set (slugify ''Foo Bar'') \<subseteq> set (ascii_lower @ ascii_digits @ ''-'')"
    using ia by (rule mp)
  from t have a: "create_event [(''slug'', PStr ''''), (''name'', PStr ''Foo Bar'')] seed_world
           = (Inr foo_bar_event,
              write_data ((read_data seed_world)\<lparr>events := events (read_data seed_world)
                             @ [foo_bar_event]\<rparr>) seed_world)"
    by (elim conjE)
  from t have b: "create_event [(''name'', PStr ''Foo Bar'')]
          (write_data ((read_data seed_world)\<lparr>events := events (read_data seed_world)
                         @ [foo_bar_event]\<rparr>) seed_world)
        = (Inl (ValueError ''Event slug already exists''),
           write_data ((read_data seed_world)\<lparr>events := events (read_data seed_world)
                         @ [foo_bar_event]\<rparr>) seed_world)"
    by (elim conjE)
  show ?thesis
    using h ia sl by (simp only: a b fst_conv snd_conv simp_thms)
qed

text \<open>
  A store with no event named Foo Bar in which the first call fails: its event has taken the
  slug \<open>foo-bar\<close> under another name.
\<close>

theorem create_foo_bar_counterexample:
  "events (read_data taken_world) = [taken_event]
   \<and> dget taken_event ''name'' = PStr ''Launch Party''
   \<and> dget taken_event ''slug'' = PStr ''foo-bar''
   \<and> create_event [(''slug'', PStr ''''), (''name'', PStr ''Foo Bar'')] taken_world
       = (Inl (ValueError ''Event slug already exists''), taken_world)"
  by code_simp

end
